theory Spec2Isabelle
  imports Main "HOL-Library.AList"
begin

section \<open>Document scope enforcement (policies/enforce-document-scope.js)\<close>

subsection \<open>JavaScript values that occur in the scope comparison\<close>

text \<open>
  What the policy code can throw: a \<open>TypeError\<close> of the JavaScript runtime (a property read
  or a call on \<open>undefined\<close> or on a number), a thrown string (\<open>throw "Invalid method type."\<close>)
  and the literal \<open>throw false\<close> that \<open>verifyScope\<close> uses to leave its filter early.
\<close>

datatype thrown = TypeError | ThrownString string | ThrownFalse

text \<open>
  An element of a document scope array: a string, or \<open>undefined\<close>, which
  \<open>documentScope.concat(actionScope)\<close> appends when the action scope is absent.
\<close>

datatype scopeValue = JUndefined | JString string

text \<open>
  The values the accumulators of the \<open>reduce\<close> calls in \<open>compareScopes\<close> can take:
  \<open>undefined\<close> (a callback that ends without \<open>return\<close>), an array of strings (the initial
  \<open>[]\<close>), a number (the result of \<open>Array.prototype.push\<close>) or a boolean.
\<close>

datatype accum = AUndefined | AArray "string list" | ANumber nat | ABool bool

text \<open>JavaScript truthiness of an accumulator, as \<open>!scopeSatisfied\<close> reads it.\<close>

fun truthy :: "accum \<Rightarrow> bool" where
  "truthy AUndefined = False"
| "truthy (AArray xs) = True"
| "truthy (ANumber n) = (n \<noteq> 0)"
| "truthy (ABool b) = b"

text \<open>
  \<open>Array.prototype.reduce(callback, initial)\<close>: the callback's return value is the next
  accumulator; an exception in the callback leaves the loop.
\<close>

fun reduce :: "('b \<Rightarrow> 'a \<Rightarrow> thrown + 'b) \<Rightarrow> 'a list \<Rightarrow> 'b \<Rightarrow> thrown + 'b" where
  "reduce f [] acc = Inr acc"
| "reduce f (x # xs) acc = (case f acc x of Inl e \<Rightarrow> Inl e | Inr acc' \<Rightarrow> reduce f xs acc')"

text \<open>
  \<open>value.reduce(callback, initial)\<close> where \<open>value\<close> is whatever an earlier \<open>reduce\<close>
  returned: only an array has the method; on \<open>undefined\<close>, a number or a boolean the call is
  a \<open>TypeError\<close>.
\<close>

fun reduceOn :: "accum \<Rightarrow> (accum \<Rightarrow> string \<Rightarrow> thrown + accum) \<Rightarrow> accum \<Rightarrow> thrown + accum" where
  "reduceOn (AArray xs) f init = reduce f xs init"
| "reduceOn AUndefined f init = Inl TypeError"
| "reduceOn (ANumber n) f init = Inl TypeError"
| "reduceOn (ABool b) f init = Inl TypeError"

text \<open>\<open>scopeValue[0] === c\<close>: reading index 0 of \<open>undefined\<close> is a \<open>TypeError\<close>; of the
  empty string it is \<open>undefined\<close>, which equals no character.\<close>

fun firstCharIs :: "scopeValue \<Rightarrow> char \<Rightarrow> thrown + bool" where
  "firstCharIs JUndefined c = Inl TypeError"
| "firstCharIs (JString []) c = Inr False"
| "firstCharIs (JString (x # xs)) c = Inr (x = c)"

text \<open>\<open>scope.push(...)\<close> on an accumulator: the new length for an array, a \<open>TypeError\<close>
  for anything else. (The pushed element is not kept: the array is the literal \<open>[]\<close> passed as
  initial value, and no callback returns it.)\<close>

fun push :: "accum \<Rightarrow> thrown + accum" where
  "push (AArray xs) = Inr (ANumber (Suc (length xs)))"
| "push AUndefined = Inl TypeError"
| "push (ANumber n) = Inl TypeError"
| "push (ABool b) = Inl TypeError"

subsection \<open>compareScopes\<close>

text \<open>The callback of the first \<open>reduce\<close>: it pushes and returns nothing.\<close>

definition forbiddenCollect :: "accum \<Rightarrow> scopeValue \<Rightarrow> thrown + accum" where
  "forbiddenCollect scope scopeValue =
     (case firstCharIs scopeValue (CHR ''!'') of
        Inl e \<Rightarrow> Inl e
      | Inr isForbidden \<Rightarrow>
          if isForbidden
          then (case push scope of Inl e \<Rightarrow> Inl e | Inr n \<Rightarrow> Inr AUndefined)
          else Inr AUndefined)"

text \<open>The callback of the third \<open>reduce\<close>: it returns the result of \<open>push\<close>.\<close>

definition requiredCollect :: "accum \<Rightarrow> scopeValue \<Rightarrow> thrown + accum" where
  "requiredCollect scope scopeValue =
     (case firstCharIs scopeValue (CHR ''+'') of
        Inl e \<Rightarrow> Inl e
      | Inr isRequired \<Rightarrow>
          if isRequired then push scope else Inr AUndefined)"

definition forbiddenCheck :: "string list \<Rightarrow> accum \<Rightarrow> string \<Rightarrow> thrown + accum" where
  "forbiddenCheck userScope satisfied scopeValue =
     (if scopeValue \<in> set userScope then Inr (ABool False) else Inr AUndefined)"

definition requiredCheck :: "string list \<Rightarrow> accum \<Rightarrow> string \<Rightarrow> thrown + accum" where
  "requiredCheck userScope satisfied scopeValue =
     (if scopeValue \<notin> set userScope then Inr (ABool False) else Inr AUndefined)"

definition generalCheck :: "string list \<Rightarrow> accum \<Rightarrow> scopeValue \<Rightarrow> thrown + accum" where
  "generalCheck userScope satisfied scopeValue =
     (if (case scopeValue of JUndefined \<Rightarrow> False | JString s \<Rightarrow> s \<in> set userScope)
      then Inr (ABool True) else Inr AUndefined)"

text \<open>\<open>documentScope.filter\<close> with the predicate
  \<open>scopeValue[0] !== '!' && scopeValue[0] !== '+'\<close>.\<close>

fun generalFilter :: "scopeValue list \<Rightarrow> thrown + scopeValue list" where
  "generalFilter [] = Inr []"
| "generalFilter (v # vs) =
     (case firstCharIs v (CHR ''!'') of
        Inl e \<Rightarrow> Inl e
      | Inr isForbidden \<Rightarrow>
          (case firstCharIs v (CHR ''+'') of
             Inl e \<Rightarrow> Inl e
           | Inr isRequired \<Rightarrow>
               (case generalFilter vs of
                  Inl e \<Rightarrow> Inl e
                | Inr rest \<Rightarrow> Inr (if \<not> isForbidden \<and> \<not> isRequired then v # rest else rest))))"

definition compareScopes :: "string list \<Rightarrow> scopeValue list \<Rightarrow> thrown + bool" where
  "compareScopes userScope documentScope =
     (case reduce forbiddenCollect documentScope (AArray []) of
        Inl e \<Rightarrow> Inl e
      | Inr fobiddenScope \<Rightarrow>
     (case reduceOn fobiddenScope (forbiddenCheck userScope) (ABool True) of
        Inl e \<Rightarrow> Inl e
      | Inr scopeSatisfied \<Rightarrow>
          if \<not> truthy scopeSatisfied then Inr False else
     (case reduce requiredCollect documentScope (AArray []) of
        Inl e \<Rightarrow> Inl e
      | Inr requiredScope \<Rightarrow>
     (case reduceOn requiredScope (requiredCheck userScope) (ABool True) of
        Inl e \<Rightarrow> Inl e
      | Inr scopeSatisfied \<Rightarrow>
          if \<not> truthy scopeSatisfied then Inr False else
     (case generalFilter documentScope of
        Inl e \<Rightarrow> Inl e
      | Inr generalScope \<Rightarrow>
     (case reduce (generalCheck userScope) generalScope (ABool False) of
        Inl e \<Rightarrow> Inl e
      | Inr scopeSatisfied \<Rightarrow>
          if \<not> truthy scopeSatisfied then Inr False else Inr True))))))"

text \<open>
  The comparison the specification describes, written from its words: forbidden tokens first,
  then required tokens, then the general tokens.
\<close>

definition specCompare :: "string list \<Rightarrow> string list \<Rightarrow> bool" where
  "specCompare S P =
     (let forbidden = map tl (filter (\<lambda>t. t \<noteq> [] \<and> hd t = CHR ''!'') P);
          required = map tl (filter (\<lambda>t. t \<noteq> [] \<and> hd t = CHR ''+'') P);
          general = filter (\<lambda>t. \<not> (t \<noteq> [] \<and> (hd t = CHR ''!'' \<or> hd t = CHR ''+''))) P
      in if list_ex (\<lambda>t. t \<in> set S) forbidden then False
         else if list_ex (\<lambda>t. t \<notin> set S) required then False
         else if general \<noteq> [] \<and> \<not> list_ex (\<lambda>t. t \<in> set S) general then False
         else True)"

subsection \<open>Documents, scope policies and verifyScope\<close>

text \<open>
  The \<open>scope\<close> object of a document: five optional arrays of strings. \<open>None\<close> is a
  property that is absent (\<open>undefined\<close>).
\<close>

record scopePolicy =
  scope :: "string list option"
  readScope :: "string list option"
  updateScope :: "string list option"
  deleteScope :: "string list option"
  associateScope :: "string list option"

record document =
  doc_id :: string
  doc_scope :: "scopePolicy option"

record config =
  enableDocumentScopeFail :: bool

record verdict =
  authorized :: bool
  unauthorizedDocs :: "document list"

text \<open>\<open>_.isEmpty(document.scope)\<close>: an object without own properties.\<close>

definition isEmptyPolicy :: "scopePolicy \<Rightarrow> bool" where
  "isEmptyPolicy p =
     (scope p = None \<and> readScope p = None \<and> updateScope p = None
      \<and> deleteScope p = None \<and> associateScope p = None)"

text \<open>The \<open>switch (action)\<close> of \<open>verifyScope\<close>; its default case throws a string.\<close>

definition actionScopeOf :: "string \<Rightarrow> scopePolicy \<Rightarrow> thrown + string list option" where
  "actionScopeOf action p =
     (if action = ''read'' then Inr (readScope p)
      else if action = ''update'' then Inr (updateScope p)
      else if action = ''delete'' then Inr (deleteScope p)
      else if action = ''associate'' then Inr (associateScope p)
      else Inl (ThrownString ''Invalid method type.''))"

text \<open>
  The scope a document is compared against. \<open>document.scope.scope || []\<close> is the global
  scope; \<open>documentScope && documentScope[0]\<close> holds when its first element is a non-empty
  string, and then \<open>concat\<close> appends the action scope (or the single value \<open>undefined\<close>
  when the action scope is absent); otherwise a present action scope replaces the global one.
\<close>

definition effectiveScope :: "string \<Rightarrow> scopePolicy \<Rightarrow> thrown + scopeValue list" where
  "effectiveScope action p =
     (let documentScope = (case scope p of None \<Rightarrow> [] | Some g \<Rightarrow> g) in
      case actionScopeOf action p of
        Inl e \<Rightarrow> Inl e
      | Inr actionScope \<Rightarrow>
          if documentScope \<noteq> [] \<and> hd documentScope \<noteq> []
          then Inr (map JString documentScope
                    @ (case actionScope of None \<Rightarrow> [JUndefined] | Some a \<Rightarrow> map JString a))
          else (case actionScope of
                  Some a \<Rightarrow> Inr (map JString a)
                | None \<Rightarrow> Inr (map JString documentScope)))"

text \<open>
  The callback of \<open>documents.filter\<close> in \<open>verifyScope\<close>. It reads and writes the captured
  variable \<open>authorized\<close>, so the flag is passed in and returned with the result; the result
  is the thrown value or whether the document is kept as unauthorized.
\<close>

definition scopeFilter ::
  "config \<Rightarrow> string \<Rightarrow> string list \<Rightarrow> bool \<Rightarrow> document \<Rightarrow> (thrown + bool) \<times> bool" where
  "scopeFilter cfg action userScope auth doc =
     (case doc_scope doc of
        None \<Rightarrow> (Inr False, auth)
      | Some p \<Rightarrow>
          if isEmptyPolicy p then (Inr False, auth)
          else (case effectiveScope action p of
                  Inl e \<Rightarrow> (Inl e, auth)
                | Inr documentScope \<Rightarrow>
                    if documentScope = [] then (Inr False, auth)
                    else (case compareScopes userScope documentScope of
                            Inl e \<Rightarrow> (Inl e, auth)
                          | Inr authorizedForDocument \<Rightarrow>
                              if authorizedForDocument then (Inr False, auth)
                              else if enableDocumentScopeFail cfg then (Inl ThrownFalse, False)
                              else (Inr True, False))))"

text \<open>\<open>documents.filter(callback)\<close> with a callback that may throw and that updates the
  flag.\<close>

fun filterDocs ::
  "(bool \<Rightarrow> document \<Rightarrow> (thrown + bool) \<times> bool) \<Rightarrow> document list \<Rightarrow> bool
     \<Rightarrow> (thrown + document list) \<times> bool" where
  "filterDocs f [] auth = (Inr [], auth)"
| "filterDocs f (d # ds) auth =
     (case f auth d of
        (Inl e, auth') \<Rightarrow> (Inl e, auth')
      | (Inr keep, auth') \<Rightarrow>
          (case filterDocs f ds auth' of
             (Inl e, auth'') \<Rightarrow> (Inl e, auth'')
           | (Inr rest, auth'') \<Rightarrow> (Inr (if keep then d # rest else rest), auth'')))"

definition verifyScope ::
  "config \<Rightarrow> document list \<Rightarrow> string \<Rightarrow> string list \<Rightarrow> thrown + verdict" where
  "verifyScope cfg documents action userScope =
     (case filterDocs (scopeFilter cfg action userScope) documents True of
        (Inl err, auth) \<Rightarrow>
          if err = ThrownFalse then Inr \<lparr>authorized = auth, unauthorizedDocs = []\<rparr>
          else Inl err
      | (Inr kept, auth) \<Rightarrow> Inr \<lparr>authorized = auth, unauthorizedDocs = kept\<rparr>)"

text \<open>
  \<open>model.find({_id: {$in: documentIds}}, 'scope')\<close> over a collection given as the list of
  its documents, followed by \<open>verifyScope\<close>.
\<close>

definition verifyScopeById ::
  "config \<Rightarrow> document list \<Rightarrow> string list \<Rightarrow> string \<Rightarrow> string list \<Rightarrow> thrown + verdict" where
  "verifyScopeById cfg model documentIds action userScope =
     verifyScope cfg (filter (\<lambda>d. doc_id d \<in> set documentIds) model) action userScope"

subsection \<open>The request hooks\<close>

text \<open>
  The part of a request the hooks read. A payload is an array of items with an \<open>_id\<close>, or
  not an array at all (\<open>None\<close>); a route parameter is truthy when present and non-empty.
\<close>

record request =
  request_method :: string
  params_id :: "string option"
  params_ownerId :: "string option"
  request_payload :: "string list option"
  credentials_scope :: "string list"

definition truthyParam :: "string option \<Rightarrow> bool" where
  "truthyParam p = (case p of None \<Rightarrow> False | Some s \<Rightarrow> s \<noteq> [])"

text \<open>What a hook passes to \<open>next\<close>: go on, a Boom forbidden error, or a Boom
  internal error wrapping what was thrown.\<close>

datatype reply = Continue | Forbidden string | BadImplementation thrown

text \<open>The action and target ids \<open>enforceDocumentScopePreForModel\<close> derives from the request;
  \<open>None\<close> when the request is none of update, associate or delete, \<open>Inl\<close> when
  \<open>request.payload.map\<close> is called on a payload that is not an array.\<close>

definition preAction :: "request \<Rightarrow> (thrown + string \<times> string list) option" where
  "preAction r =
     (if truthyParam (params_id r) \<and> request_method r = ''put''
        then Some (Inr (''update'', [the (params_id r)]))
      else if truthyParam (params_ownerId r)
        then Some (Inr (if request_method r = ''get'' then ''read'' else ''associate'',
                        [the (params_ownerId r)]))
      else if request_method r = ''delete''
        then (if truthyParam (params_id r) then Some (Inr (''delete'', [the (params_id r)]))
              else (case request_payload r of
                      None \<Rightarrow> Some (Inl TypeError)
                    | Some items \<Rightarrow> Some (Inr (''delete'', items))))
      else None)"

definition enforceDocumentScopePreForModel ::
  "config \<Rightarrow> document list \<Rightarrow> request \<Rightarrow> (thrown + reply \<times> request)" where
  "enforceDocumentScopePreForModel cfg model r =
     (case preAction r of
        None \<Rightarrow> Inr (Continue, r)
      | Some (Inl e) \<Rightarrow> Inl e
      | Some (Inr (action, ids)) \<Rightarrow>
          (case verifyScopeById cfg model ids action (credentials_scope r) of
             Inl error \<Rightarrow> Inr (BadImplementation error, r)
           | Inr result \<Rightarrow>
               if authorized result then Inr (Continue, r)
               else if action = ''delete'' \<and> \<not> enableDocumentScopeFail cfg
               then (let unauthorizedIds = map doc_id (unauthorizedDocs result) in
                     case request_payload r of
                       None \<Rightarrow> Inr (BadImplementation TypeError, r)
                     | Some items \<Rightarrow>
                         Inr (Continue,
                              r\<lparr>request_payload := Some (filter (\<lambda>item. item \<notin> set unauthorizedIds) items)\<rparr>))
               else Inr (Forbidden ''Insufficient document scope.'', r)))"

text \<open>The body of a read response as the post hook finds it: one document
  (\<open>request.response.source\<close>) or a page (\<open>request.response.source.docs\<close>).\<close>

datatype source = SourceDoc document | SourceDocs "document list"

text \<open>The body after the hook: a listed document may have been replaced by an error
  object.\<close>

datatype listed = Listed document | ErrorObject string

datatype response = ResponseDoc document | ResponseDocs "listed list"

fun unchanged :: "source \<Rightarrow> response" where
  "unchanged (SourceDoc d) = ResponseDoc d"
| "unchanged (SourceDocs ds) = ResponseDocs (map Listed ds)"

text \<open>The documents handed to \<open>verifyScope\<close>: \<open>[request.response.source]\<close> when the
  request has an \<open>_id\<close> parameter (a page taken as one document has no \<open>scope\<close>
  property), \<open>request.response.source.docs\<close> otherwise (\<open>undefined\<close> for a single
  document, on which \<open>filter\<close> throws).\<close>

definition postDocuments :: "request \<Rightarrow> source \<Rightarrow> thrown + document list" where
  "postDocuments r src =
     (if truthyParam (params_id r)
      then (case src of
              SourceDoc d \<Rightarrow> Inr [d]
            | SourceDocs ds \<Rightarrow> Inr [\<lparr>doc_id = [], doc_scope = None\<rparr>])
      else (case src of
              SourceDoc d \<Rightarrow> Inl TypeError
            | SourceDocs ds \<Rightarrow> Inr ds))"

definition enforceDocumentScopePostForModel ::
  "config \<Rightarrow> request \<Rightarrow> source \<Rightarrow> thrown + reply \<times> response" where
  "enforceDocumentScopePostForModel cfg r src =
     (if request_method r = ''get'' then
        (case postDocuments r src of
           Inl e \<Rightarrow> Inl e
         | Inr documents \<Rightarrow>
        (case verifyScope cfg documents ''read'' (credentials_scope r) of
           Inl e \<Rightarrow> Inl e
         | Inr result \<Rightarrow>
             if authorized result then Inr (Continue, unchanged src)
             else if truthyParam (params_id r) \<or> enableDocumentScopeFail cfg
             then Inr (Forbidden ''Insufficient document scope.'', unchanged src)
             else (let unauthorizedIds = map doc_id (unauthorizedDocs result) in
                   case src of
                     SourceDoc d \<Rightarrow> Inl TypeError
                   | SourceDocs ds \<Rightarrow>
                       Inr (Continue,
                            ResponseDocs (map (\<lambda>document.
                              if doc_id document \<notin> set unauthorizedIds then Listed document
                              else ErrorObject ''Insufficient document scope.'') ds)))))
      else Inr (Continue, unchanged src))"

section \<open>Associations between documents (the association handlers)\<close>

subsection \<open>Documents, models and the store\<close>

text \<open>
  A plain JavaScript object with string values, as an insertion-ordered list of properties:
  a linking entry of an association array, or a payload record with extra fields.
\<close>

type_synonym obj = "(string \<times> string) list"

text \<open>
  A document of a collection: its \<open>_id\<close>, its scalar properties (a foreign key among
  them) and its association arrays by name.
\<close>

record doc =
  oid :: string
  props :: obj
  arrays :: "(string \<times> obj list) list"

text \<open>An entry of \<open>routeOptions.associations\<close>; \<open>include_as\<close> is \<open>include.as\<close>,
  \<open>None\<close> when the descriptor has no \<open>include\<close>.\<close>

record association =
  atype :: string
  amodel :: string
  foreignField :: "string option"
  include_as :: "string option"

record model =
  modelName :: string
  associations :: "(string \<times> association) list"

text \<open>
  The store: the documents of all collections, each with the name of its collection, and the
  supply of fresh ids for new linking entries. Whether a \<open>save\<close> is rejected is for the
  store to decide, not for the handlers: \<open>failing\<close> lists the documents whose every
  \<open>save\<close> is rejected, and \<open>rejections\<close> tells for the coming calls of \<open>save\<close>, in
  their order, whether the call is rejected (calls beyond the list are not). So a document that
  was saved once can be refused later. A \<open>save\<close> that is not rejected writes the whole
  in-memory document.
\<close>

record db =
  stored :: "(string \<times> doc) list"
  failing :: "(string \<times> string) list"
  rejections :: "bool list"
  nextId :: nat

datatype errorKind = BAD_REQUEST | NOT_FOUND | SERVER_TIMEOUT | GATEWAY_TIMEOUT

text \<open>Why a promise is rejected: a thrown or rejected string, a \<open>TypeError\<close>, the error
  of a failed \<open>save\<close>, or the typed error of \<open>errorHelper.handleError\<close>.\<close>

datatype reason = Message string | JsTypeError | SaveError | Typed errorKind string

text \<open>How a promise ends: resolved with a value, rejected, or never settled.\<close>

datatype 'a promise = Resolved 'a | Rejected reason | Pending

datatype resolved = VTrue | VUndefined

text \<open>Modelled from the spec: \<open>errorHelper.handleError\<close> (error-helper.js is not among the
  sources) raises a typed failure of the given kind with the given message.\<close>

definition handleError :: "string \<Rightarrow> errorKind \<Rightarrow> reason" where
  "handleError message kind = Typed kind message"

definition findOne :: "db \<Rightarrow> model \<Rightarrow> string \<Rightarrow> doc option" where
  "findOne d m i =
     map_option snd (find (\<lambda>(c, x). c = modelName m \<and> oid x = i) (stored d))"

fun put :: "string \<Rightarrow> doc \<Rightarrow> (string \<times> doc) list \<Rightarrow> (string \<times> doc) list" where
  "put c x [] = [(c, x)]"
| "put c x ((c', y) # rest) =
     (if c' = c \<and> oid y = oid x then (c, x) # rest else (c', y) # put c x rest)"

definition save :: "model \<Rightarrow> doc \<Rightarrow> db \<Rightarrow> (reason + unit) \<times> db" where
  "save m x d =
     (if (modelName m, oid x) \<in> set (failing d)
         \<or> (case rejections d of [] \<Rightarrow> False | thisCall # later \<Rightarrow> thisCall)
      then (Inl SaveError, d\<lparr>rejections := tl (rejections d)\<rparr>)
      else (Inr (), d\<lparr>stored := put (modelName m) x (stored d),
                      rejections := tl (rejections d)\<rparr>))"

text \<open>
  \<open>Q.all(ownerObject.save(), childObject.save())\<close>. \<open>Q.all\<close> has one parameter, an array
  of promises or a promise for one. Called with two promises it waits for the first, takes its
  value (the saved document) for the array, finds no elements in it and resolves; the second
  argument is never looked at. The arguments are the outcomes of the promises passed.
\<close>

fun Q_all :: "(reason + unit) list \<Rightarrow> unit promise" where
  "Q_all [] = Rejected JsTypeError"
| "Q_all (Inl r # ignored) = Rejected r"
| "Q_all (Inr v # ignored) = Resolved ()"

text \<open>The promise of a single \<open>save\<close>.\<close>

fun settled :: "reason + unit \<Rightarrow> unit promise" where
  "settled (Inl r) = Rejected r"
| "settled (Inr v) = Resolved ()"

subsection \<open>Linking entries\<close>

text \<open>
  A document array of the object mapper casts what is pushed to it into a subdocument, which
  gets an \<open>_id\<close> of its own unless the pushed object has one. New ids are taken from the
  supply of the store.
\<close>

definition objectId :: "nat \<Rightarrow> string" where
  "objectId n = ''oid'' @ replicate n (CHR ''i'')"

definition pushEntry :: "obj \<Rightarrow> obj list \<Rightarrow> nat \<Rightarrow> obj list \<times> nat" where
  "pushEntry e arr n =
     (case map_of e ''_id'' of
        Some i \<Rightarrow> (arr @ [e], n)
      | None \<Rightarrow> (arr @ [(''_id'', objectId n) # e], Suc n))"

text \<open>
  \<open>arr.filter(function (o) { return o[key].toString() === ident })[0]\<close> followed by
  \<open>arr.indexOf\<close> of the result: the index of the first entry that refers to \<open>ident\<close>,
  \<open>None\<close> for \<open>-1\<close>. The filter reads \<open>o[key]\<close> of every entry, and \<open>toString\<close> of a
  missing property is a \<open>TypeError\<close>.
\<close>

fun duplicateIndex :: "string \<Rightarrow> string \<Rightarrow> obj list \<Rightarrow> reason + nat option" where
  "duplicateIndex key ident [] = Inr None"
| "duplicateIndex key ident (e # es) =
     (case map_of e key of
        None \<Rightarrow> Inl JsTypeError
      | Some v \<Rightarrow>
          (case duplicateIndex key ident es of
             Inl r \<Rightarrow> Inl r
           | Inr i \<Rightarrow> Inr (if v = ident then Some 0 else map_option Suc i)))"

text \<open>\<open>payload._id = entry._id\<close>; an entry without \<open>_id\<close> leaves the property undefined.\<close>

definition retainId :: "obj \<Rightarrow> obj \<Rightarrow> obj" where
  "retainId entry p =
     (case map_of entry ''_id'' of
        Some i \<Rightarrow> AList.update ''_id'' i p
      | None \<Rightarrow> AList.delete ''_id'' p)"

text \<open>\<open>arr.splice(index, 1)\<close>.\<close>

definition splice1 :: "nat \<Rightarrow> 'a list \<Rightarrow> 'a list" where
  "splice1 i arr = take i arr @ drop (Suc i) arr"

subsection \<open>Payloads\<close>

text \<open>
  The payload of \<open>addMany\<close> is an array of child ids or an array of records, each with a
  \<open>childId\<close> and extra fields; \<open>typeof payload[0] === 'string'\<close> tells them apart.
\<close>

datatype payload = Ids "string list" | Records "obj list"

text \<open>
  The record \<open>setAssociation\<close> works on and whether it carries extra fields. For an array of
  ids it is a fresh \<open>{}\<close>. For records it is the first record whose \<open>childId\<close> is the
  child's id, with \<open>childId\<close> deleted; \<open>delete\<close> on the \<open>undefined\<close> that an empty
  selection yields is a \<open>TypeError\<close>.
\<close>

definition selectPayload :: "payload \<Rightarrow> doc \<Rightarrow> reason + obj \<times> bool" where
  "selectPayload payload childObject =
     (case payload of
        Ids (x # xs) \<Rightarrow> Inr ([], False)
      | Ids [] \<Rightarrow> Inl JsTypeError
      | Records rs \<Rightarrow>
          (case filter (\<lambda>object. map_of object ''childId'' = Some (oid childObject)) rs of
             [] \<Rightarrow> Inl JsTypeError
           | r # others \<Rightarrow> Inr (AList.delete ''childId'' r, True)))"

fun replaceFirst :: "('a \<Rightarrow> bool) \<Rightarrow> 'a \<Rightarrow> 'a list \<Rightarrow> 'a list" where
  "replaceFirst P y [] = []"
| "replaceFirst P y (x # xs) = (if P x then y # xs else x # replaceFirst P y xs)"

text \<open>
  The selected record is an element of the caller's array, so what \<open>setAssociation\<close> assigns
  to it (up to \<open>extend({}, payload)\<close>, which copies it) is seen by the next call that gets
  the same array.
\<close>

definition mutatePayload :: "payload \<Rightarrow> doc \<Rightarrow> obj \<Rightarrow> payload" where
  "mutatePayload payload childObject p =
     (case payload of
        Ids xs \<Rightarrow> Ids xs
      | Records rs \<Rightarrow>
          Records (replaceFirst (\<lambda>object. map_of object ''childId'' = Some (oid childObject)) p rs))"

subsection \<open>setAssociation\<close>

text \<open>The owner's side of a MANY_MANY link: a new entry when the child is not linked yet,
  otherwise the entry is replaced, keeping its \<open>_id\<close>, but only when there are extra fields.
  Returns the record as assigned so far, the array and the id supply.\<close>

definition linkOwner ::
  "obj \<Rightarrow> bool \<Rightarrow> string \<Rightarrow> string \<Rightarrow> obj list \<Rightarrow> nat \<Rightarrow> reason + obj \<times> obj list \<times> nat" where
  "linkOwner p extraFields key childId arr n =
     (case duplicateIndex key childId arr of
        Inl r \<Rightarrow> Inl r
      | Inr None \<Rightarrow> (case pushEntry p arr n of (arr', n') \<Rightarrow> Inr (p, arr', n'))
      | Inr (Some i) \<Rightarrow>
          if extraFields
          then (let p' = retainId (arr ! i) p in Inr (p', arr[i := p'], n))
          else Inr (p, arr, n))"

text \<open>The child's side: a new entry, or the entry replaced with its \<open>_id\<close> kept.\<close>

definition linkChild ::
  "obj \<Rightarrow> string \<Rightarrow> string \<Rightarrow> obj list \<Rightarrow> nat \<Rightarrow> reason + obj list \<times> nat" where
  "linkChild p key ownerId arr n =
     (case duplicateIndex key ownerId arr of
        Inl r \<Rightarrow> Inl r
      | Inr None \<Rightarrow> Inr (pushEntry p arr n)
      | Inr (Some i) \<Rightarrow> Inr (arr[i := retainId (arr ! i) p], n))"

text \<open>
  The loop over the child's associations keeps the last one that satisfies the test;
  \<open>childAssociation.include.as\<close> is a \<open>TypeError\<close> when none does (\<open>{}.include\<close> is
  undefined) or when the descriptor has no \<open>include\<close>.
\<close>

definition childAssociationName ::
  "(association \<Rightarrow> bool) \<Rightarrow> (string \<times> association) list \<Rightarrow> reason + string" where
  "childAssociationName test childAssociations =
     (case filter (\<lambda>(childAssociationKey, a). test a) childAssociations of
        [] \<Rightarrow> Inl JsTypeError
      | found \<Rightarrow>
          (case include_as (snd (last found)) of
             None \<Rightarrow> Inl JsTypeError
           | Some name \<Rightarrow> Inr name))"

text \<open>
  The MANY_MANY branch of \<open>setAssociation\<close> up to the two saves: the owner and the child as
  mutated in memory, the caller's payload array and the id supply; or what was thrown.
\<close>

definition linkManyMany ::
  "model \<Rightarrow> doc \<Rightarrow> model \<Rightarrow> doc \<Rightarrow> string \<Rightarrow> string \<Rightarrow> payload \<Rightarrow> nat
     \<Rightarrow> reason + doc \<times> doc \<times> payload \<times> nat" where
  "linkManyMany ownerModel ownerObject childModel childObject childId associationName payload n =
     (case selectPayload payload childObject of
        Inl r \<Rightarrow> Inl r
      | Inr (p0, extraFields) \<Rightarrow>
     (let p1 = AList.update (modelName childModel) (oid childObject) p0 in
      case map_of (arrays ownerObject) associationName of
        None \<Rightarrow> Inl JsTypeError
      | Some ownerArray \<Rightarrow>
     (case linkOwner p1 extraFields (modelName childModel) childId ownerArray n of
        Inl r \<Rightarrow> Inl r
      | Inr (p2, ownerArray', n1) \<Rightarrow>
     (let p3 = AList.update (modelName ownerModel) (oid ownerObject)
                 (AList.delete (modelName childModel) (AList.delete ''_id'' p2)) in
      case childAssociationName
             (\<lambda>a. amodel a = modelName ownerModel \<and> atype a = ''MANY_MANY'')
             (associations childModel) of
        Inl r \<Rightarrow> Inl r
      | Inr name \<Rightarrow>
     (case map_of (arrays childObject) name of
        None \<Rightarrow> Inl (Message (name @ '' association does not exist.''))
      | Some childArray \<Rightarrow>
     (case linkChild p3 (modelName ownerModel) (oid ownerObject) childArray n1 of
        Inl r \<Rightarrow> Inl r
      | Inr (childArray', n2) \<Rightarrow>
          Inr (ownerObject\<lparr>arrays := AList.update associationName ownerArray' (arrays ownerObject)\<rparr>,
               childObject\<lparr>arrays := AList.update name childArray' (arrays childObject)\<rparr>,
               mutatePayload payload childObject p2,
               n2)))))))"

text \<open>
  \<open>_setAssociation\<close>: the promise it returns, the owner object and the payload array as it
  leaves them to its caller, and the store. After a rejection no caller reads the owner object
  or the payload again, so they are returned as they came. In the ONE_MANY branch a descriptor
  without \<open>foreignField\<close> makes the assignment go to the property \<open>undefined\<close> of the
  child object, which is no path of its schema: the child is saved as it was.
\<close>

definition setAssociation ::
  "model \<Rightarrow> doc \<Rightarrow> model \<Rightarrow> string \<Rightarrow> string \<Rightarrow> payload \<Rightarrow> db
     \<Rightarrow> unit promise \<times> doc \<times> payload \<times> db" where
  "setAssociation ownerModel ownerObject childModel childId associationName payload d =
     (case findOne d childModel childId of
        None \<Rightarrow> (Rejected (Message ''Child object not found.''), ownerObject, payload, d)
      | Some childObject \<Rightarrow>
     (case map_of (associations ownerModel) associationName of
        None \<Rightarrow> (Rejected JsTypeError, ownerObject, payload, d)
      | Some a \<Rightarrow>
          if atype a = ''ONE_MANY'' then
            (case save childModel
                    (case foreignField a of
                       None \<Rightarrow> childObject
                     | Some f \<Rightarrow>
                         childObject\<lparr>props := AList.update f (oid ownerObject) (props childObject)\<rparr>)
                    d of
               (saved, d') \<Rightarrow> (settled saved, ownerObject, payload, d'))
          else if atype a = ''MANY_MANY'' then
            (case linkManyMany ownerModel ownerObject childModel childObject childId
                    associationName payload (nextId d) of
               Inl r \<Rightarrow> (Rejected r, ownerObject, payload, d)
             | Inr (ownerObject', childObject', payload', n) \<Rightarrow>
                 (case save ownerModel ownerObject' (d\<lparr>nextId := n\<rparr>) of
                    (ownerSaved, d1) \<Rightarrow>
                 (case save childModel childObject' d1 of
                    (childSaved, d2) \<Rightarrow>
                      (Q_all [ownerSaved, childSaved], ownerObject', payload', d2))))
          else (Rejected (Message ''Association type incorrectly defined.''), ownerObject, payload, d)))"

subsection \<open>removeAssociation\<close>

definition unlinkManyMany ::
  "model \<Rightarrow> doc \<Rightarrow> model \<Rightarrow> doc \<Rightarrow> string \<Rightarrow> reason + doc \<times> doc" where
  "unlinkManyMany ownerModel ownerObject childModel childObject associationName =
     (case map_of (arrays ownerObject) associationName of
        None \<Rightarrow> Inl JsTypeError
      | Some ownerArray \<Rightarrow>
     (case duplicateIndex (modelName childModel) (oid childObject) ownerArray of
        Inl r \<Rightarrow> Inl r
      | Inr index \<Rightarrow>
     (let ownerArray' = (case index of None \<Rightarrow> ownerArray | Some i \<Rightarrow> splice1 i ownerArray) in
      case childAssociationName (\<lambda>a. amodel a = modelName ownerModel) (associations childModel) of
        Inl r \<Rightarrow> Inl r
      | Inr name \<Rightarrow>
     (case map_of (arrays childObject) name of
        None \<Rightarrow> Inl JsTypeError
      | Some childArray \<Rightarrow>
     (case duplicateIndex (modelName ownerModel) (oid ownerObject) childArray of
        Inl r \<Rightarrow> Inl r
      | Inr index' \<Rightarrow>
          Inr (ownerObject\<lparr>arrays := AList.update associationName ownerArray' (arrays ownerObject)\<rparr>,
               childObject\<lparr>arrays := AList.update name
                  (case index' of None \<Rightarrow> childArray | Some i \<Rightarrow> splice1 i childArray)
                  (arrays childObject)\<rparr>))))))"

definition removeAssociation ::
  "model \<Rightarrow> doc \<Rightarrow> model \<Rightarrow> string \<Rightarrow> string \<Rightarrow> db \<Rightarrow> unit promise \<times> db" where
  "removeAssociation ownerModel ownerObject childModel childId associationName d =
     (case findOne d childModel childId of
        None \<Rightarrow> (Rejected (Message ''Child object not found.''), d)
      | Some childObject \<Rightarrow>
     (case map_of (associations ownerModel) associationName of
        None \<Rightarrow> (Rejected JsTypeError, d)
      | Some a \<Rightarrow>
          if atype a = ''ONE_MANY'' then
            (case save childModel
                    (case foreignField a of
                       None \<Rightarrow> childObject
                     | Some f \<Rightarrow> childObject\<lparr>props := AList.delete f (props childObject)\<rparr>)
                    d of
               (saved, d') \<Rightarrow> (settled saved, d'))
          else if atype a = ''MANY_MANY'' then
            (case unlinkManyMany ownerModel ownerObject childModel childObject associationName of
               Inl r \<Rightarrow> (Rejected r, d)
             | Inr (ownerObject', childObject') \<Rightarrow>
                 (case save ownerModel ownerObject' d of
                    (ownerSaved, d1) \<Rightarrow>
                 (case save childModel childObject' d1 of
                    (childSaved, d2) \<Rightarrow> (Q_all [ownerSaved, childSaved], d2))))
          else (Rejected (Message ''Association type incorrectly defined.''), d)))"

subsection \<open>addOne, removeOne and addMany\<close>

text \<open>
  \<open>_addOne\<close> returns the promise of \<open>setAssociation\<close>, mapped to \<open>true\<close> or to a typed
  error. The payload is the object with the extra fields, or nothing.
\<close>

definition addOne ::
  "model \<Rightarrow> string \<Rightarrow> model \<Rightarrow> string \<Rightarrow> string \<Rightarrow> obj option \<Rightarrow> db \<Rightarrow> resolved promise \<times> db" where
  "addOne ownerModel ownerId childModel childId associationName payload d =
     (case findOne d ownerModel ownerId of
        None \<Rightarrow> (Rejected (handleError ''No owner resource was found with that id.'' NOT_FOUND), d)
      | Some ownerObject \<Rightarrow>
          (let p = AList.update ''childId'' childId (case payload of None \<Rightarrow> [] | Some x \<Rightarrow> x) in
           case setAssociation ownerModel ownerObject childModel childId associationName
                  (Records [p]) d of
             (Resolved u, ownerObject', payload', d') \<Rightarrow> (Resolved VTrue, d')
           | (Rejected r, ownerObject', payload', d') \<Rightarrow>
               (Rejected (handleError ''There was a database error while setting the association.''
                            GATEWAY_TIMEOUT), d')
           | (Pending, ownerObject', payload', d') \<Rightarrow> (Pending, d')))"

text \<open>
  \<open>_removeOne\<close> calls \<open>_removeAssociation\<close> without returning its promise: the callback
  returns \<open>undefined\<close>, with which the promise of \<open>_removeOne\<close> resolves whatever becomes
  of the removal. The store is the one the removal leaves.
\<close>

definition removeOne ::
  "model \<Rightarrow> string \<Rightarrow> model \<Rightarrow> string \<Rightarrow> string \<Rightarrow> db \<Rightarrow> resolved promise \<times> db" where
  "removeOne ownerModel ownerId childModel childId associationName d =
     (case findOne d ownerModel ownerId of
        None \<Rightarrow> (Rejected (handleError ''No owner resource was found with that id.'' NOT_FOUND), d)
      | Some ownerObject \<Rightarrow>
          (case removeAssociation ownerModel ownerObject childModel childId associationName d of
             (removed, d') \<Rightarrow> (Resolved VUndefined, d')))"

text \<open>
  The child ids \<open>_addMany\<close> walks through: the payload itself when its first element is a
  string, \<open>object.childId\<close> of every element otherwise (\<open>None\<close> for a record without one).
\<close>

definition childIdsOf :: "payload \<Rightarrow> string option list" where
  "childIdsOf payload =
     (case payload of
        Ids xs \<Rightarrow> map Some xs
      | Records rs \<Rightarrow> map (\<lambda>object. map_of object ''childId'') rs)"

text \<open>
  The promise chain of \<open>_addMany\<close>: one \<open>setAssociation\<close> after the other on the same
  owner object and payload array. The promise of a link is resolved when \<open>setAssociation\<close>
  resolves; when it rejects, the \<open>catch\<close> throws into a promise nobody holds, the promise of
  the link is never settled and the chain stops there for good. Every link saves the owner
  object anew, and the store decides each time whether that save is rejected: the chain goes
  on only after a link that resolved. The lookup of a child under an undefined id is taken to
  find nothing.
\<close>

fun linkChain ::
  "model \<Rightarrow> model \<Rightarrow> string \<Rightarrow> string option list \<Rightarrow> doc \<Rightarrow> payload \<Rightarrow> db
     \<Rightarrow> unit promise \<times> doc \<times> payload \<times> db" where
  "linkChain ownerModel childModel associationName [] ownerObject payload d =
     (Resolved (), ownerObject, payload, d)"
| "linkChain ownerModel childModel associationName (None # childIds) ownerObject payload d =
     (Pending, ownerObject, payload, d)"
| "linkChain ownerModel childModel associationName (Some childId # childIds) ownerObject payload d =
     (case setAssociation ownerModel ownerObject childModel childId associationName payload d of
        (Resolved u, ownerObject', payload', d') \<Rightarrow>
          linkChain ownerModel childModel associationName childIds ownerObject' payload' d'
      | (Rejected r, ownerObject', payload', d') \<Rightarrow> (Pending, ownerObject', payload', d')
      | (Pending, ownerObject', payload', d') \<Rightarrow> (Pending, ownerObject', payload', d'))"

definition addMany ::
  "model \<Rightarrow> string \<Rightarrow> model \<Rightarrow> string \<Rightarrow> payload \<Rightarrow> db \<Rightarrow> resolved promise \<times> db" where
  "addMany ownerModel ownerId childModel associationName payload d =
     (case findOne d ownerModel ownerId of
        None \<Rightarrow> (Rejected (handleError ''No owner resource was found with that id.'' NOT_FOUND), d)
      | Some ownerObject \<Rightarrow>
          (case linkChain ownerModel childModel associationName (childIdsOf payload)
                  ownerObject payload d of
             (Resolved u, ownerObject', payload', d') \<Rightarrow> (Resolved VTrue, d')
           | (Rejected r, ownerObject', payload', d') \<Rightarrow>
               (Rejected (handleError ''There was a database error while setting the associations.''
                            GATEWAY_TIMEOUT), d')
           | (Pending, ownerObject', payload', d') \<Rightarrow> (Pending, d')))"

subsection \<open>Reading the store\<close>

text \<open>The association array of a document, empty when the document has none of that name.\<close>

definition arrayOf :: "doc \<Rightarrow> string \<Rightarrow> obj list" where
  "arrayOf x name = (case map_of (arrays x) name of None \<Rightarrow> [] | Some arr \<Rightarrow> arr)"

text \<open>The association array of a stored document.\<close>

definition storedArray :: "db \<Rightarrow> model \<Rightarrow> string \<Rightarrow> string \<Rightarrow> obj list" where
  "storedArray d m i name =
     (case findOne d m i of
        None \<Rightarrow> []
      | Some x \<Rightarrow> (case map_of (arrays x) name of None \<Rightarrow> [] | Some arr \<Rightarrow> arr))"

text \<open>The linking entries of an array that refer to \<open>ident\<close> under \<open>key\<close>, and the
  references of all entries in array order.\<close>

definition entriesFor :: "string \<Rightarrow> string \<Rightarrow> obj list \<Rightarrow> obj list" where
  "entriesFor key ident arr = filter (\<lambda>e. map_of e key = Some ident) arr"

definition refs :: "string \<Rightarrow> obj list \<Rightarrow> string option list" where
  "refs key arr = map (\<lambda>e. map_of e key) arr"

subsection \<open>The models of test scenario 3\<close>

text \<open>
  The \<open>permission\<close> model of tests/test-scenarios/scenario-3 with its two MANY_MANY
  associations, the \<open>role\<close> model it is associated with, and a store with one role and two
  permissions, none linked. \<open>unsavable\<close> lists the documents whose \<open>save\<close> is rejected.
\<close>

definition roleModel :: model where
  "roleModel = \<lparr>modelName = ''role'', associations =
      [(''permissions'', \<lparr>atype = ''MANY_MANY'', amodel = ''permission'', foreignField = None,
          include_as = Some ''permissions''\<rparr>)]\<rparr>"

definition permissionModel :: model where
  "permissionModel = \<lparr>modelName = ''permission'', associations =
      [(''users'', \<lparr>atype = ''MANY_MANY'', amodel = ''user'', foreignField = None,
          include_as = Some ''users''\<rparr>),
       (''roles'', \<lparr>atype = ''MANY_MANY'', amodel = ''role'', foreignField = None,
          include_as = Some ''roles''\<rparr>)]\<rparr>"

definition exampleStore :: "(string \<times> string) list \<Rightarrow> db" where
  "exampleStore unsavable =
     \<lparr>stored = [(''role'', \<lparr>oid = ''r1'', props = [], arrays = [(''permissions'', [])]\<rparr>),
                (''permission'', \<lparr>oid = ''p1'', props = [],
                   arrays = [(''users'', []), (''roles'', [])]\<rparr>),
                (''permission'', \<lparr>oid = ''p2'', props = [],
                   arrays = [(''users'', []), (''roles'', [])]\<rparr>)],
      failing = unsavable, rejections = [], nextId = 0\<rparr>"

text \<open>The same store after role \<open>r1\<close> and permission \<open>p1\<close> have been linked.\<close>

definition linkedStore :: "(string \<times> string) list \<Rightarrow> db" where
  "linkedStore unsavable =
     \<lparr>stored = [(''role'', \<lparr>oid = ''r1'', props = [],
                   arrays = [(''permissions'', [[(''_id'', ''oid''), (''permission'', ''p1'')]])]\<rparr>),
                (''permission'', \<lparr>oid = ''p1'', props = [],
                   arrays = [(''users'', []),
                             (''roles'', [[(''_id'', ''oidi''), (''role'', ''r1'')]])]\<rparr>),
                (''permission'', \<lparr>oid = ''p2'', props = [],
                   arrays = [(''users'', []), (''roles'', [])]\<rparr>)],
      failing = unsavable, rejections = [], nextId = 2\<rparr>"

section \<open>Properties of the scope enforcement\<close>

lemma firstCharIs_Inl: "firstCharIs v c = Inl e \<Longrightarrow> e = TypeError"
  by (cases "(v, c)" rule: firstCharIs.cases) auto

lemma forbiddenCollect_result:
  "forbiddenCollect acc v = Inl TypeError \<or> forbiddenCollect acc v = Inr AUndefined"
  by (cases acc) (auto simp: forbiddenCollect_def split: sum.splits dest: firstCharIs_Inl)

lemma reduce_forbiddenCollect_AUndefined:
  "reduce forbiddenCollect vs AUndefined = Inl TypeError \<or> reduce forbiddenCollect vs AUndefined = Inr AUndefined"
proof (induction vs)
  case Nil
  show ?case by simp
next
  case (Cons v vs)
  then show ?case
    using forbiddenCollect_result [of AUndefined v] by auto
qed

lemma reduce_forbiddenCollect_nonempty:
  assumes "documentScope \<noteq> []"
  shows "reduce forbiddenCollect documentScope (AArray []) = Inl TypeError
       \<or> reduce forbiddenCollect documentScope (AArray []) = Inr AUndefined"
proof (cases documentScope)
  case Nil
  with assms show ?thesis by simp
next
  case (Cons v vs)
  then show ?thesis
    using reduce_forbiddenCollect_AUndefined [of vs] forbiddenCollect_result [of "AArray []" v]
    by auto
qed

lemma compareScopes_nonempty_throws:
  assumes "documentScope \<noteq> []"
  shows "compareScopes userScope documentScope = Inl TypeError"
  using reduce_forbiddenCollect_nonempty [OF assms]
  by (auto simp: compareScopes_def)

lemma compareScopes_empty: "compareScopes userScope [] = Inr False"
  by (simp add: compareScopes_def)

text \<open>
  Claim C1. The specification's comparison (forbidden, then required, then general tokens)
  accepts the caller scope \<open>[user]\<close> for the document scope \<open>[user]\<close>: the caller holds
  the only general token. The code does not return at all on this input: the callback of the
  first \<open>reduce\<close> returns nothing, the collected forbidden scope is \<open>undefined\<close>, and
  calling \<open>reduce\<close> on it throws a \<open>TypeError\<close>.
\<close>

theorem C1_compareScopes_throws:
  "compareScopes [''user''] [JString ''user''] = Inl TypeError
   \<and> specCompare [''user''] [''user''] = True"
  by (simp add: compareScopes_def forbiddenCollect_def specCompare_def)

subsection \<open>verifyScope never reports an unauthorized document\<close>

lemma effectiveScope_Inl:
  "effectiveScope action p = Inl e \<Longrightarrow> e = ThrownString ''Invalid method type.''"
  by (auto simp: effectiveScope_def actionScopeOf_def Let_def split: if_splits option.splits)

lemma scopeFilter_result:
  "scopeFilter cfg action userScope auth d = (r, auth') \<Longrightarrow>
     auth' = auth \<and> (r = Inr False \<or> (\<exists>e. r = Inl e \<and> e \<noteq> ThrownFalse))"
  using compareScopes_nonempty_throws
  by (auto simp: scopeFilter_def split: option.splits if_splits sum.splits dest: effectiveScope_Inl)

lemma filterDocs_scopeFilter:
  "filterDocs (scopeFilter cfg action userScope) ds auth = (r, auth') \<Longrightarrow>
     auth' = auth \<and> (r = Inr [] \<or> (\<exists>e. r = Inl e \<and> e \<noteq> ThrownFalse))"
proof (induction ds arbitrary: r auth')
  case Nil
  then show ?case by simp
next
  case (Cons d ds)
  obtain r1 a1 where f: "scopeFilter cfg action userScope auth d = (r1, a1)"
    by (cases "scopeFilter cfg action userScope auth d")
  obtain r2 a2 where g: "filterDocs (scopeFilter cfg action userScope) ds auth = (r2, a2)"
    by (cases "filterDocs (scopeFilter cfg action userScope) ds auth")
  from scopeFilter_result [OF f] have a1: "a1 = auth"
    and r1: "r1 = Inr False \<or> (\<exists>e. r1 = Inl e \<and> e \<noteq> ThrownFalse)" by auto
  from Cons.IH [OF g] have a2: "a2 = auth"
    and r2: "r2 = Inr [] \<or> (\<exists>e. r2 = Inl e \<and> e \<noteq> ThrownFalse)" by auto
  from r1 show ?case
  proof
    assume "r1 = Inr False"
    with Cons.prems f g a1 a2 r2 show ?thesis by auto
  next
    assume "\<exists>e. r1 = Inl e \<and> e \<noteq> ThrownFalse"
    with Cons.prems f a1 show ?thesis by auto
  qed
qed

text \<open>
  Since \<open>compareScopes\<close> throws on every document scope it is called with, no run of
  \<open>verifyScope\<close> finds a document unauthorized: it either throws or authorizes everything.
\<close>

lemma verifyScope_never_unauthorized:
  assumes "verifyScope cfg documents action userScope = Inr v"
  shows "authorized v \<and> unauthorizedDocs v = []"
proof -
  obtain r a where f: "filterDocs (scopeFilter cfg action userScope) documents True = (r, a)"
    by (cases "filterDocs (scopeFilter cfg action userScope) documents True")
  from filterDocs_scopeFilter [OF f] assms f show ?thesis
    by (auto simp: verifyScope_def)
qed

subsection \<open>Documents without an applicable scope\<close>

lemma scopeFilter_no_scope:
  assumes "\<And>p. doc_scope d = Some p \<Longrightarrow> isEmptyPolicy p \<or> effectiveScope action p = Inr []"
  shows "scopeFilter cfg action userScope auth d = (Inr False, auth)"
  using assms by (auto simp: scopeFilter_def split: option.splits)

text \<open>
  Claim C5. Whatever the caller scope (the empty one included), documents that carry no scope
  policy, an empty policy object, or a policy whose effective scope for the action is the empty
  list are all authorized: \<open>verifyScope\<close> returns \<open>authorized = true\<close> and no unauthorized
  document.
\<close>

theorem C5_empty_scope_authorizes:
  assumes "\<forall>d \<in> set documents. \<forall>p. doc_scope d = Some p \<longrightarrow>
             isEmptyPolicy p \<or> effectiveScope action p = Inr []"
  shows "verifyScope cfg documents action userScope
           = Inr \<lparr>authorized = True, unauthorizedDocs = []\<rparr>"
proof -
  have "filterDocs (scopeFilter cfg action userScope) documents auth = (Inr [], auth)" for auth
    using assms
  proof (induction documents)
    case Nil
    show ?case by simp
  next
    case (Cons d ds)
    have "scopeFilter cfg action userScope auth d = (Inr False, auth)"
      using Cons.prems by (intro scopeFilter_no_scope) auto
    moreover have "filterDocs (scopeFilter cfg action userScope) ds auth = (Inr [], auth)"
      using Cons by simp
    ultimately show ?case by simp
  qed
  then show ?thesis by (simp add: verifyScope_def)
qed

theorem C5_empty_scope_authorizes_witness:
  "verifyScope \<lparr>enableDocumentScopeFail = True\<rparr>
        [\<lparr>doc_id = ''a'', doc_scope = Some \<lparr>scope = Some [], readScope = Some [],
            updateScope = Some [''admin''], deleteScope = None, associateScope = None\<rparr>\<rparr>,
         \<lparr>doc_id = ''b'', doc_scope = None\<rparr>] ''read'' []
       = Inr \<lparr>authorized = True, unauthorizedDocs = []\<rparr>"
proof -
  have h: "\<forall>d \<in> set [\<lparr>doc_id = ''a'', doc_scope = Some \<lparr>scope = Some [], readScope = Some [],
                    updateScope = Some [''admin''], deleteScope = None, associateScope = None\<rparr>\<rparr>,
                 \<lparr>doc_id = ''b'', doc_scope = None\<rparr>].
      \<forall>p. doc_scope d = Some p \<longrightarrow> isEmptyPolicy p \<or> effectiveScope ''read'' p = Inr []"
    by (simp add: effectiveScope_def actionScopeOf_def)
  from C5_empty_scope_authorizes [OF h] show ?thesis .
qed

subsection \<open>The effective scope\<close>

text \<open>
  Claim C6, as stated: the effective scope is the global list followed by the action list
  whenever the global list is non-empty. It fails for a global list that begins with the
  empty string: \<open>documentScope[0]\<close> is then falsy and the action scope alone is used.
\<close>

theorem C6_counterexample:
  "['''', ''admin''] \<noteq> []
   \<and> effectiveScope ''read'' \<lparr>scope = Some ['''', ''admin''], readScope = Some [''x''],
        updateScope = None, deleteScope = None, associateScope = None\<rparr>
     = Inr [JString ''x'']
   \<and> effectiveScope ''read'' \<lparr>scope = Some ['''', ''admin''], readScope = Some [''x''],
        updateScope = None, deleteScope = None, associateScope = None\<rparr>
     \<noteq> Inr (map JString (['''', ''admin''] @ [''x'']))"
  by (simp add: effectiveScope_def actionScopeOf_def)

text \<open>
  Claim C6, amended. For a policy with global list \<open>G\<close> (an absent global list counts as
  empty) and a present list \<open>A\<close> for one of the four actions, the effective scope is \<open>G\<close>
  followed by \<open>A\<close> when \<open>G\<close> is non-empty and its first token is not the empty string,
  and \<open>A\<close> alone otherwise.
\<close>

theorem C6_effectiveScope:
  assumes "actionScopeOf action p = Inr (Some A)"
    and "G = (case scope p of None \<Rightarrow> [] | Some g \<Rightarrow> g)"
  shows "effectiveScope action p =
           Inr (map JString (if G \<noteq> [] \<and> hd G \<noteq> [] then G @ A else A))"
  using assms by (simp add: effectiveScope_def)

theorem C6_effectiveScope_witness:
  "effectiveScope ''delete'' \<lparr>scope = Some [''root''], readScope = None,
        updateScope = None, deleteScope = Some [''!guest''], associateScope = None\<rparr>
     = Inr [JString ''root'', JString ''!guest'']
   \<and> effectiveScope ''delete'' \<lparr>scope = Some [], readScope = None,
        updateScope = None, deleteScope = Some [''!guest''], associateScope = None\<rparr>
     = Inr [JString ''!guest'']"
  using C6_effectiveScope [of "''delete''" "\<lparr>scope = Some [''root''], readScope = None,
        updateScope = None, deleteScope = Some [''!guest''], associateScope = None\<rparr>"
        "[''!guest'']" "[''root'']"]
    C6_effectiveScope [of "''delete''" "\<lparr>scope = Some [], readScope = None,
        updateScope = None, deleteScope = Some [''!guest''], associateScope = None\<rparr>"
        "[''!guest'']" "[]"]
  by (simp add: actionScopeOf_def)

subsection \<open>The hooks on a document that should fail its scope check\<close>

text \<open>
  Claim C10. In strict mode a document that the caller is not entitled to read (read scope
  \<open>[admin]\<close>, caller scope \<open>[user]\<close>) should end the verification with
  \<open>authorized = false\<close> and an empty list of unauthorized documents. The code never reaches
  its \<open>throw false\<close>: \<open>compareScopes\<close> throws a \<open>TypeError\<close>, which \<open>verifyScope\<close>
  rethrows.
\<close>

theorem C10_strict_throws:
  "verifyScope \<lparr>enableDocumentScopeFail = True\<rparr>
     [\<lparr>doc_id = ''B'', doc_scope = Some \<lparr>scope = None, readScope = Some [''admin''],
         updateScope = None, deleteScope = None, associateScope = None\<rparr>\<rparr>]
     ''read'' [''user'']
   = Inl TypeError"
  by (simp add: verifyScope_def scopeFilter_def isEmptyPolicy_def effectiveScope_def
      actionScopeOf_def compareScopes_def forbiddenCollect_def)

text \<open>
  Claim C3. A bulk delete of \<open>[A, B, C]\<close> where only \<open>B\<close> carries a delete scope the
  caller does not satisfy should go on with \<open>[A, C]\<close> in lenient mode and be rejected as
  forbidden in strict mode. In both modes the pre hook answers with an internal error and
  leaves the payload as it was: the \<open>TypeError\<close> of \<open>compareScopes\<close> rejects the promise
  of \<open>verifyScopeById\<close>, and the \<open>catch\<close> wraps it with \<open>Boom.badImplementation\<close>.
\<close>

theorem C3_bulk_delete_internal_error:
  "enforceDocumentScopePreForModel \<lparr>enableDocumentScopeFail = False\<rparr>
     [\<lparr>doc_id = ''A'', doc_scope = None\<rparr>,
      \<lparr>doc_id = ''B'', doc_scope = Some \<lparr>scope = None, readScope = None, updateScope = None,
         deleteScope = Some [''admin''], associateScope = None\<rparr>\<rparr>,
      \<lparr>doc_id = ''C'', doc_scope = None\<rparr>]
     \<lparr>request_method = ''delete'', params_id = None, params_ownerId = None,
      request_payload = Some [''A'', ''B'', ''C''], credentials_scope = [''user'']\<rparr>
   = Inr (BadImplementation TypeError,
      \<lparr>request_method = ''delete'', params_id = None, params_ownerId = None,
       request_payload = Some [''A'', ''B'', ''C''], credentials_scope = [''user'']\<rparr>)
   \<and> enforceDocumentScopePreForModel \<lparr>enableDocumentScopeFail = True\<rparr>
     [\<lparr>doc_id = ''A'', doc_scope = None\<rparr>,
      \<lparr>doc_id = ''B'', doc_scope = Some \<lparr>scope = None, readScope = None, updateScope = None,
         deleteScope = Some [''admin''], associateScope = None\<rparr>\<rparr>,
      \<lparr>doc_id = ''C'', doc_scope = None\<rparr>]
     \<lparr>request_method = ''delete'', params_id = None, params_ownerId = None,
      request_payload = Some [''A'', ''B'', ''C''], credentials_scope = [''user'']\<rparr>
   = Inr (BadImplementation TypeError,
      \<lparr>request_method = ''delete'', params_id = None, params_ownerId = None,
       request_payload = Some [''A'', ''B'', ''C''], credentials_scope = [''user'']\<rparr>)"
  by (simp add: enforceDocumentScopePreForModel_def preAction_def truthyParam_def
      verifyScopeById_def verifyScope_def scopeFilter_def isEmptyPolicy_def effectiveScope_def
      actionScopeOf_def compareScopes_def forbiddenCollect_def)

text \<open>
  Claim C4. A list read of \<open>[d1, d2]\<close> where \<open>d2\<close> carries a read scope the caller does
  not satisfy should be redacted to \<open>[d1, error object]\<close> in lenient mode and rejected as
  forbidden in strict mode, and a single read of \<open>d2\<close> should be rejected as forbidden. In
  all three cases the post hook throws the \<open>TypeError\<close> of \<open>compareScopes\<close> and never
  calls \<open>next\<close>.
\<close>

theorem C4_read_throws:
  "enforceDocumentScopePostForModel \<lparr>enableDocumentScopeFail = False\<rparr>
     \<lparr>request_method = ''get'', params_id = None, params_ownerId = None, request_payload = None,
      credentials_scope = [''user'']\<rparr>
     (SourceDocs [\<lparr>doc_id = ''d1'', doc_scope = None\<rparr>,
        \<lparr>doc_id = ''d2'', doc_scope = Some \<lparr>scope = None, readScope = Some [''admin''],
           updateScope = None, deleteScope = None, associateScope = None\<rparr>\<rparr>])
   = Inl TypeError
   \<and> enforceDocumentScopePostForModel \<lparr>enableDocumentScopeFail = True\<rparr>
     \<lparr>request_method = ''get'', params_id = None, params_ownerId = None, request_payload = None,
      credentials_scope = [''user'']\<rparr>
     (SourceDocs [\<lparr>doc_id = ''d1'', doc_scope = None\<rparr>,
        \<lparr>doc_id = ''d2'', doc_scope = Some \<lparr>scope = None, readScope = Some [''admin''],
           updateScope = None, deleteScope = None, associateScope = None\<rparr>\<rparr>])
   = Inl TypeError
   \<and> enforceDocumentScopePostForModel \<lparr>enableDocumentScopeFail = False\<rparr>
     \<lparr>request_method = ''get'', params_id = Some ''d2'', params_ownerId = None, request_payload = None,
      credentials_scope = [''user'']\<rparr>
     (SourceDoc \<lparr>doc_id = ''d2'', doc_scope = Some \<lparr>scope = None, readScope = Some [''admin''],
           updateScope = None, deleteScope = None, associateScope = None\<rparr>\<rparr>)
   = Inl TypeError"
  by (simp add: enforceDocumentScopePostForModel_def postDocuments_def truthyParam_def
      verifyScope_def scopeFilter_def isEmptyPolicy_def effectiveScope_def
      actionScopeOf_def compareScopes_def forbiddenCollect_def)

section \<open>Properties of the association handlers\<close>

subsection \<open>The store\<close>

lemma findOne_oid: "findOne d m i = Some x \<Longrightarrow> oid x = i"
  by (auto simp: findOne_def find_Some_iff)

lemma find_put:
  "find (\<lambda>(c, x). c = k \<and> oid x = i) (put c' y s) =
     (if k = c' \<and> i = oid y then Some (c', y) else find (\<lambda>(c, x). c = k \<and> oid x = i) s)"
  by (induction s) auto

lemma findOne_put:
  "findOne (d\<lparr>stored := put c y (stored d)\<rparr>) m i =
     (if modelName m = c \<and> i = oid y then Some y else findOne d m i)"
  by (simp add: findOne_def find_put)

lemma findOne_nextId [simp]: "findOne (d\<lparr>nextId := n\<rparr>) m i = findOne d m i"
  by (simp add: findOne_def)

lemma findOne_rejections [simp]: "findOne (d\<lparr>rejections := r\<rparr>) m i = findOne d m i"
  by (simp add: findOne_def)

lemma save_failing: "save m x d = (r, d') \<Longrightarrow> failing d' = failing d"
  by (auto simp: save_def split: if_splits)

lemma save_rejections: "save m x d = (r, d') \<Longrightarrow> rejections d = [] \<Longrightarrow> rejections d' = []"
  by (auto simp: save_def split: if_splits)

lemma save_other:
  assumes "save m x d = (r, d')" and "(modelName m', i) \<noteq> (modelName m, oid x)"
  shows "findOne d' m' i = findOne d m' i"
  using assms by (auto simp: save_def findOne_put split: if_splits)

lemma save_Inr:
  assumes "save m x d = (Inr u, d')"
  shows "findOne d' m' i = (if modelName m' = modelName m \<and> i = oid x then Some x else findOne d m' i)"
  using assms by (auto simp: save_def findOne_put split: if_splits)

lemma save_Inl: "save m x d = (Inl r, d') \<Longrightarrow> findOne d' m' i = findOne d m' i"
  by (auto simp: save_def split: if_splits)

lemma save_accepted:
  assumes "(modelName m, oid x) \<notin> set (failing d)" and "rejections d = []"
  shows "\<exists>d'. save m x d = (Inr (), d')"
  using assms by (simp add: save_def)

subsection \<open>The index of a linking entry\<close>

lemma duplicateIndex_None:
  "duplicateIndex key ident arr = Inr None \<Longrightarrow> Some ident \<notin> set (refs key arr)"
  by (induction arr) (auto simp: refs_def split: option.splits sum.splits if_splits)

lemma duplicateIndex_Some:
  "duplicateIndex key ident arr = Inr (Some i) \<Longrightarrow>
     i < length arr \<and> map_of (arr ! i) key = Some ident
     \<and> Some ident \<notin> set (refs key (take i arr))"
proof (induction arr arbitrary: i)
  case Nil
  then show ?case by simp
next
  case (Cons e es)
  then show ?case
    by (auto simp: refs_def split: option.splits sum.splits if_splits)
qed


subsection \<open>Replacing the one element that satisfies a predicate\<close>

lemma filter_update_single:
  assumes "i < length xs" and "P (xs ! i)" and "length (filter P xs) \<le> 1" and "P y"
  shows "filter P (xs[i := y]) = [y] \<and> filter P xs = [xs ! i]"
proof -
  have xs: "xs = take i xs @ xs ! i # drop (Suc i) xs"
    using assms(1) by (rule id_take_nth_drop)
  have "filter P xs = filter P (take i xs) @ xs ! i # filter P (drop (Suc i) xs)"
    using assms(2) by (subst xs) simp
  with assms(3) have e: "filter P (take i xs) = []" "filter P (drop (Suc i) xs) = []"
    and f: "filter P xs = [xs ! i]" by auto
  have "xs[i := y] = take i xs @ y # drop (Suc i) xs"
    using assms(1) by (rule upd_conv_take_nth_drop)
  with e assms(4) f show ?thesis by simp
qed

subsection \<open>Linking entries\<close>

lemma retainId_key:
  assumes "map_of entry key = Some cid" and "map_of p key = Some cid"
  shows "map_of (retainId entry p) key = Some cid"
  using assms
  by (cases "key = ''_id''")
     (auto simp: retainId_def update_conv' delete_conv' split: option.splits)

lemma retainId_id: "map_of (retainId entry p) ''_id'' = map_of entry ''_id''"
  by (auto simp: retainId_def update_conv' delete_conv' split: option.splits)

lemma pushEntry_ex:
  assumes "pushEntry p arr n = (arr', n')" and "map_of p key = Some cid"
  shows "\<exists>e. arr' = arr @ [e] \<and> map_of e key = Some cid"
  using assms by (cases "key = ''_id''") (auto simp: pushEntry_def split: option.splits)

lemma pushEntry_cases:
  assumes "pushEntry p arr n = (arr', n')" and "map_of p key = Some cid"
  obtains e where "arr' = arr @ [e]" and "map_of e key = Some cid"
  using pushEntry_ex [OF assms] by blast

lemma duplicateIndex_None_entries:
  "duplicateIndex key ident arr = Inr None \<Longrightarrow> entriesFor key ident arr = []"
  by (induction arr) (auto simp: entriesFor_def split: option.splits sum.splits if_splits)

lemma linkOwner_refs:
  assumes "linkOwner p ex key cid arr n = Inr (p', arr', n')" and "map_of p key = Some cid"
  shows "refs key arr' =
           (if Some cid \<in> set (refs key arr) then refs key arr else refs key arr @ [Some cid])"
proof (cases "duplicateIndex key cid arr")
  case (Inl r)
  with assms show ?thesis by (simp add: linkOwner_def)
next
  case (Inr found)
  show ?thesis
  proof (cases found)
    case None
    with Inr assms(1) obtain a k where pe: "pushEntry p arr n = (a, k)" and a: "arr' = a"
      by (cases "pushEntry p arr n") (auto simp: linkOwner_def)
    from pe assms(2) obtain e where "a = arr @ [e]" and "map_of e key = Some cid"
      by (rule pushEntry_cases)
    with a duplicateIndex_None [of key cid arr] Inr None show ?thesis
      by (simp add: refs_def)
  next
    case (Some i)
    with Inr duplicateIndex_Some [of key cid arr i]
    have i: "i < length arr" and m: "map_of (arr ! i) key = Some cid" by auto
    then have mem: "Some cid \<in> set (refs key arr)"
      by (auto simp: refs_def intro!: image_eqI [where x = "arr ! i"])
    show ?thesis
    proof (cases ex)
      case True
      with Inr Some assms(1) have "arr' = arr[i := retainId (arr ! i) p]"
        by (auto simp: linkOwner_def Let_def)
      then have "refs key arr' = (refs key arr)[i := map_of (retainId (arr ! i) p) key]"
        by (simp add: refs_def map_update)
      also have "\<dots> = (refs key arr)[i := refs key arr ! i]"
        using retainId_key [OF m assms(2)] m i by (simp add: refs_def)
      finally show ?thesis using mem by simp
    next
      case False
      with Inr Some assms(1) have "arr' = arr" by (simp add: linkOwner_def)
      with mem show ?thesis by simp
    qed
  qed
qed

lemma retainId_other: "k \<noteq> ''_id'' \<Longrightarrow> map_of (retainId entry p) k = map_of p k"
  by (auto simp: retainId_def update_conv' delete_conv' split: option.splits)

lemma pushEntry_entry:
  assumes "pushEntry p arr n = (arr', n')" and "map_of p key = Some cid"
  shows "\<exists>e. arr' = arr @ [e] \<and> map_of e key = Some cid
           \<and> (\<forall>k. k \<noteq> ''_id'' \<longrightarrow> map_of e k = map_of p k) \<and> map_of e ''_id'' \<noteq> None"
  using assms by (cases "key = ''_id''") (auto simp: pushEntry_def split: option.splits)

lemma linkOwner_entries:
  assumes "linkOwner p True key cid arr n = Inr (p', arr', n')" and "map_of p key = Some cid"
    and "length (entriesFor key cid arr) \<le> 1"
  shows "\<exists>e. entriesFor key cid arr' = [e]
           \<and> (\<forall>k. k \<noteq> ''_id'' \<longrightarrow> map_of e k = map_of p k)
           \<and> (\<forall>k. k \<noteq> ''_id'' \<longrightarrow> map_of p' k = map_of p k)
           \<and> (\<forall>e0. entriesFor key cid arr = [e0] \<longrightarrow> map_of e ''_id'' = map_of e0 ''_id'')
           \<and> (entriesFor key cid arr = [] \<longrightarrow> map_of e ''_id'' \<noteq> None)"
proof (cases "duplicateIndex key cid arr")
  case (Inl r)
  with assms show ?thesis by (simp add: linkOwner_def)
next
  case (Inr found)
  show ?thesis
  proof (cases found)
    case None
    with Inr assms(1) obtain a k where pe: "pushEntry p arr n = (a, k)" and a: "arr' = a"
      and p': "p' = p"
      by (cases "pushEntry p arr n") (auto simp: linkOwner_def)
    from pushEntry_entry [OF pe assms(2)] obtain e where e: "a = arr @ [e]"
      "map_of e key = Some cid" "\<forall>k. k \<noteq> ''_id'' \<longrightarrow> map_of e k = map_of p k"
      "map_of e ''_id'' \<noteq> None"
      by blast
    from Inr None have n: "entriesFor key cid arr = []"
      by (simp add: duplicateIndex_None_entries)
    have "entriesFor key cid arr' = [e]" using a e(1,2) n by (simp add: entriesFor_def)
    with e(3,4) p' n show ?thesis by simp
  next
    case (Some i)
    with Inr duplicateIndex_Some [of key cid arr i]
    have i: "i < length arr" and m: "map_of (arr ! i) key = Some cid" by auto
    from Inr Some assms(1) have a: "arr' = arr[i := retainId (arr ! i) p]"
      and p': "p' = retainId (arr ! i) p"
      by (auto simp: linkOwner_def Let_def)
    have f: "filter (\<lambda>e. map_of e key = Some cid) (arr[i := retainId (arr ! i) p])
            = [retainId (arr ! i) p]
          \<and> filter (\<lambda>e. map_of e key = Some cid) arr = [arr ! i]"
      using i m assms(3) retainId_key [OF m assms(2)]
      by (intro filter_update_single) (simp_all add: entriesFor_def)
    have "entriesFor key cid arr' = [retainId (arr ! i) p]"
      and "entriesFor key cid arr = [arr ! i]"
      using f a by (simp_all add: entriesFor_def)
    then show ?thesis using p' by (simp add: retainId_id retainId_other)
  qed
qed

lemma linkChild_linkOwner:
  "linkChild p key i arr n =
     (case linkOwner p True key i arr n of Inl r \<Rightarrow> Inl r | Inr (p', arr', n') \<Rightarrow> Inr (arr', n'))"
  by (auto simp: linkChild_def linkOwner_def Let_def split: sum.splits option.splits prod.splits)

lemma linkChild_entries:
  assumes "linkChild p key cid arr n = Inr (arr', n')" and "map_of p key = Some cid"
    and "length (entriesFor key cid arr) \<le> 1"
  shows "\<exists>e. entriesFor key cid arr' = [e]
           \<and> (\<forall>k. k \<noteq> ''_id'' \<longrightarrow> map_of e k = map_of p k)
           \<and> (\<forall>e0. entriesFor key cid arr = [e0] \<longrightarrow> map_of e ''_id'' = map_of e0 ''_id'')
           \<and> (entriesFor key cid arr = [] \<longrightarrow> map_of e ''_id'' \<noteq> None)"
proof -
  from assms(1) obtain p' where "linkOwner p True key cid arr n = Inr (p', arr', n')"
    by (auto simp: linkChild_linkOwner split: sum.splits)
  from linkOwner_entries [OF this assms(2,3)] show ?thesis by blast
qed

subsection \<open>A resolved setAssociation\<close>

lemma linkManyMany_Inr:
  assumes "linkManyMany om ob cm co cid an payload n = Inr (ob', co', payload', n2)"
  shows "\<exists>p0 ex oa p2 oa' n1 name ca ca'.
      selectPayload payload co = Inr (p0, ex)
    \<and> map_of (arrays ob) an = Some oa
    \<and> linkOwner (AList.update (modelName cm) (oid co) p0) ex (modelName cm) cid oa n
        = Inr (p2, oa', n1)
    \<and> childAssociationName (\<lambda>a. amodel a = modelName om \<and> atype a = ''MANY_MANY'')
        (associations cm) = Inr name
    \<and> map_of (arrays co) name = Some ca
    \<and> linkChild (AList.update (modelName om) (oid ob)
          (AList.delete (modelName cm) (AList.delete ''_id'' p2)))
        (modelName om) (oid ob) ca n1 = Inr (ca', n2)
    \<and> ob' = ob\<lparr>arrays := AList.update an oa' (arrays ob)\<rparr>
    \<and> co' = co\<lparr>arrays := AList.update name ca' (arrays co)\<rparr>"
  using assms
  by (auto simp: linkManyMany_def Let_def split: sum.splits option.splits prod.splits)

lemma Q_all_Resolved: "Q_all [a, b] = Resolved u \<Longrightarrow> a = Inr ()"
  by (cases a) auto

lemma setAssociation_resolved:
  assumes "setAssociation om ob cm cid an payload d = (Resolved u, ob', payload', d')"
    and "map_of (associations om) an = Some a" and "atype a = ''MANY_MANY''"
  shows "\<exists>co co' n2 d1.
      findOne d cm cid = Some co
    \<and> linkManyMany om ob cm co cid an payload (nextId d) = Inr (ob', co', payload', n2)
    \<and> save om ob' (d\<lparr>nextId := n2\<rparr>) = (Inr (), d1)
    \<and> d' = snd (save cm co' d1)"
proof -
  from assms obtain co where co: "findOne d cm cid = Some co"
    by (auto simp: setAssociation_def split: option.splits)
  from assms co obtain o2 co' p2 n2
    where l: "linkManyMany om ob cm co cid an payload (nextId d) = Inr (o2, co', p2, n2)"
    by (cases "linkManyMany om ob cm co cid an payload (nextId d)")
       (auto simp: setAssociation_def)
  obtain r1 d1 where s1: "save om o2 (d\<lparr>nextId := n2\<rparr>) = (r1, d1)"
    by (cases "save om o2 (d\<lparr>nextId := n2\<rparr>)")
  obtain r2 d2 where s2: "save cm co' d1 = (r2, d2)"
    by (cases "save cm co' d1")
  from assms co l s1 s2 have q: "Q_all [r1, r2] = Resolved u" and e: "ob' = o2" "payload' = p2" "d' = d2"
    by (auto simp: setAssociation_def)
  from q have "r1 = Inr ()" by (rule Q_all_Resolved)
  with co l e s1 s2 show ?thesis by auto
qed

lemma selectPayload_single:
  "selectPayload (Records [p]) co = Inr (p0, ex) \<Longrightarrow> ex \<and> p0 = AList.delete ''childId'' p"
  by (auto simp: selectPayload_def split: list.splits if_splits)

lemma storedArray_eq:
  "findOne d m i = Some x \<Longrightarrow> map_of (arrays x) name = Some arr \<Longrightarrow> storedArray d m i name = arr"
  by (simp add: storedArray_def)

text \<open>
  The record \<open>addOne\<close> hands to the owner's side of the link: the extra fields and the
  reference to the child.
\<close>

lemma addOne_resolved:
  assumes add: "addOne om oi cm cid an extra d = (Resolved VTrue, d')"
    and a: "map_of (associations om) an = Some a" "atype a = ''MANY_MANY''"
    and rc: "childAssociationName (\<lambda>a. amodel a = modelName om \<and> atype a = ''MANY_MANY'')
               (associations cm) = Inr rc"
    and nf: "(modelName cm, cid) \<notin> set (failing d)"
    and rj: "rejections d = []"
    and ne: "(modelName om, oi) \<noteq> (modelName cm, cid)"
  shows "\<exists>p2 oa' n1 ca' n2.
      linkOwner (AList.update (modelName cm) cid (AList.delete ''childId''
                   (AList.update ''childId'' cid (case extra of None \<Rightarrow> [] | Some x \<Rightarrow> x))))
        True (modelName cm) cid (storedArray d om oi an) (nextId d) = Inr (p2, oa', n1)
    \<and> storedArray d' om oi an = oa'
    \<and> linkChild (AList.update (modelName om) oi
                   (AList.delete (modelName cm) (AList.delete ''_id'' p2)))
        (modelName om) oi (storedArray d cm cid rc) n1 = Inr (ca', n2)
    \<and> storedArray d' cm cid rc = ca'
    \<and> failing d' = failing d \<and> rejections d' = []"
proof -
  from add obtain ob where ob: "findOne d om oi = Some ob"
    by (auto simp: addOne_def split: option.splits)
  define px where "px = AList.update ''childId'' cid (case extra of None \<Rightarrow> [] | Some x \<Rightarrow> x)"
  from add ob obtain u ob' pl' where
    sa: "setAssociation om ob cm cid an (Records [px]) d = (Resolved u, ob', pl', d')"
    by (auto simp: addOne_def Let_def px_def split: prod.splits promise.splits)
  from setAssociation_resolved [OF sa a] obtain co co' n2 d1 where
    co: "findOne d cm cid = Some co"
    and l: "linkManyMany om ob cm co cid an (Records [px]) (nextId d) = Inr (ob', co', pl', n2)"
    and s1: "save om ob' (d\<lparr>nextId := n2\<rparr>) = (Inr (), d1)"
    and d': "d' = snd (save cm co' d1)"
    by blast
  from linkManyMany_Inr [OF l] rc obtain p0 ex oa p2 oa' n1 ca ca' where
    sp: "selectPayload (Records [px]) co = Inr (p0, ex)"
    and oa: "map_of (arrays ob) an = Some oa"
    and lo: "linkOwner (AList.update (modelName cm) (oid co) p0) ex (modelName cm) cid oa (nextId d)
               = Inr (p2, oa', n1)"
    and ca: "map_of (arrays co) rc = Some ca"
    and lc: "linkChild (AList.update (modelName om) (oid ob)
               (AList.delete (modelName cm) (AList.delete ''_id'' p2)))
               (modelName om) (oid ob) ca n1 = Inr (ca', n2)"
    and ob': "ob' = ob\<lparr>arrays := AList.update an oa' (arrays ob)\<rparr>"
    and co': "co' = co\<lparr>arrays := AList.update rc ca' (arrays co)\<rparr>"
    by auto
  have oid_ob: "oid ob = oi" using ob by (rule findOne_oid)
  have oid_co: "oid co = cid" using co by (rule findOne_oid)
  from selectPayload_single [OF sp] have ex: "ex" and p0: "p0 = AList.delete ''childId'' px"
    by simp_all
  have f1: "failing d1 = failing d" using save_failing [OF s1] by simp
  have j1: "rejections d1 = []" using save_rejections [OF s1] rj by simp
  have "(modelName cm, oid co') \<notin> set (failing d1)" using nf f1 oid_co co' by simp
  from save_accepted [OF this j1] obtain d2 where s2: "save cm co' d1 = (Inr (), d2)" by blast
  with d' have d2: "d' = d2" by simp
  have f_owner: "findOne d' om oi = Some ob'"
    using save_Inr [OF s2, of om oi] save_Inr [OF s1, of om oi] ne oid_co oid_ob co' ob' d2
    by auto
  have f_child: "findOne d' cm cid = Some co'"
    using save_Inr [OF s2, of cm cid] oid_co co' d2 by simp
  have sa1: "storedArray d om oi an = oa" using ob oa by (rule storedArray_eq)
  have sa2: "storedArray d cm cid rc = ca" using co ca by (rule storedArray_eq)
  have r2: "linkOwner (AList.update (modelName cm) cid (AList.delete ''childId''
                   (AList.update ''childId'' cid (case extra of None \<Rightarrow> [] | Some x \<Rightarrow> x))))
              True (modelName cm) cid (storedArray d om oi an) (nextId d) = Inr (p2, oa', n1)"
    using lo ex sa1 p0 oid_co by (simp add: px_def)
  have r3: "storedArray d' om oi an = oa'"
    using f_owner by (rule storedArray_eq) (simp add: ob' update_conv')
  have r5: "linkChild (AList.update (modelName om) oi
               (AList.delete (modelName cm) (AList.delete ''_id'' p2)))
               (modelName om) oi (storedArray d cm cid rc) n1 = Inr (ca', n2)"
    using lc sa2 oid_ob by simp
  have r6: "storedArray d' cm cid rc = ca'"
    using f_child by (rule storedArray_eq) (simp add: co' update_conv')
  have r7: "failing d' = failing d" using save_failing [OF s2] f1 d2 by simp
  have r8: "rejections d' = []" using save_rejections [OF s2 j1] d2 by simp
  from r2 r3 r5 r6 r7 r8 show ?thesis by blast
qed

text \<open>
  What one resolved \<open>addOne\<close> leaves when the save of the child is not rejected: one entry
  for the pair on either side, with the extra fields, and with the \<open>_id\<close> of the entry
  that was there before, if there was one.
\<close>

lemma addOne_saved:
  assumes add: "addOne om oi cm cid an extra d = (Resolved VTrue, d')"
    and a: "map_of (associations om) an = Some a" "atype a = ''MANY_MANY''"
    and rc: "childAssociationName (\<lambda>a. amodel a = modelName om \<and> atype a = ''MANY_MANY'')
               (associations cm) = Inr rc"
    and nf: "(modelName cm, cid) \<notin> set (failing d)"
    and rj: "rejections d = []"
    and ne: "(modelName om, oi) \<noteq> (modelName cm, cid)"
    and u1: "length (entriesFor (modelName cm) cid (storedArray d om oi an)) \<le> 1"
    and u2: "length (entriesFor (modelName om) oi (storedArray d cm cid rc)) \<le> 1"
  shows "\<exists>e f.
      entriesFor (modelName cm) cid (storedArray d' om oi an) = [e]
    \<and> (\<forall>k. k \<notin> {''_id'', ''childId'', modelName cm}
           \<longrightarrow> map_of e k = map_of (case extra of None \<Rightarrow> [] | Some x \<Rightarrow> x) k)
    \<and> (\<forall>e0. entriesFor (modelName cm) cid (storedArray d om oi an) = [e0]
           \<longrightarrow> map_of e ''_id'' = map_of e0 ''_id'')
    \<and> (entriesFor (modelName cm) cid (storedArray d om oi an) = [] \<longrightarrow> map_of e ''_id'' \<noteq> None)
    \<and> entriesFor (modelName om) oi (storedArray d' cm cid rc) = [f]
    \<and> (\<forall>k. k \<notin> {''_id'', ''childId'', modelName cm, modelName om}
           \<longrightarrow> map_of f k = map_of (case extra of None \<Rightarrow> [] | Some x \<Rightarrow> x) k)
    \<and> (\<forall>f0. entriesFor (modelName om) oi (storedArray d cm cid rc) = [f0]
           \<longrightarrow> map_of f ''_id'' = map_of f0 ''_id'')
    \<and> (entriesFor (modelName om) oi (storedArray d cm cid rc) = [] \<longrightarrow> map_of f ''_id'' \<noteq> None)
    \<and> failing d' = failing d \<and> rejections d' = []"
proof -
  define x0 where "x0 = (case extra of None \<Rightarrow> [] | Some x \<Rightarrow> x)"
  define p1 where "p1 = AList.update (modelName cm) cid (AList.delete ''childId''
                   (AList.update ''childId'' cid x0))"
  from addOne_resolved [OF add a rc nf rj ne] obtain p2 oa' n1 ca' n2 where
    lo: "linkOwner p1 True (modelName cm) cid (storedArray d om oi an) (nextId d) = Inr (p2, oa', n1)"
    and so: "storedArray d' om oi an = oa'"
    and lc: "linkChild (AList.update (modelName om) oi
                   (AList.delete (modelName cm) (AList.delete ''_id'' p2)))
        (modelName om) oi (storedArray d cm cid rc) n1 = Inr (ca', n2)"
    and sc: "storedArray d' cm cid rc = ca'"
    and fr: "failing d' = failing d" "rejections d' = []"
    unfolding p1_def x0_def by blast
  have p1k: "map_of p1 (modelName cm) = Some cid" by (simp add: p1_def update_conv')
  have p1x: "map_of p1 k = map_of x0 k" if "k \<noteq> ''childId''" "k \<noteq> modelName cm" for k
    using that by (simp add: p1_def update_conv' delete_conv')
  from linkOwner_entries [OF lo p1k u1] obtain e where
    e: "entriesFor (modelName cm) cid oa' = [e]"
    and ek: "\<forall>k. k \<noteq> ''_id'' \<longrightarrow> map_of e k = map_of p1 k"
    and pk: "\<forall>k. k \<noteq> ''_id'' \<longrightarrow> map_of p2 k = map_of p1 k"
    and ei: "\<forall>e0. entriesFor (modelName cm) cid (storedArray d om oi an) = [e0]
               \<longrightarrow> map_of e ''_id'' = map_of e0 ''_id''"
    and en: "entriesFor (modelName cm) cid (storedArray d om oi an) = [] \<longrightarrow> map_of e ''_id'' \<noteq> None"
    by blast
  define p3 where "p3 = AList.update (modelName om) oi
                   (AList.delete (modelName cm) (AList.delete ''_id'' p2))"
  have p3k: "map_of p3 (modelName om) = Some oi" by (simp add: p3_def update_conv')
  have p3x: "map_of p3 k = map_of x0 k"
    if "k \<noteq> ''_id''" "k \<noteq> ''childId''" "k \<noteq> modelName cm" "k \<noteq> modelName om" for k
    using that pk p1x by (simp add: p3_def update_conv' delete_conv')
  from linkChild_entries [OF lc [folded p3_def] p3k u2] obtain f where
    f: "entriesFor (modelName om) oi ca' = [f]"
    and fk: "\<forall>k. k \<noteq> ''_id'' \<longrightarrow> map_of f k = map_of p3 k"
    and fi: "\<forall>f0. entriesFor (modelName om) oi (storedArray d cm cid rc) = [f0]
               \<longrightarrow> map_of f ''_id'' = map_of f0 ''_id''"
    and fn: "entriesFor (modelName om) oi (storedArray d cm cid rc) = [] \<longrightarrow> map_of f ''_id'' \<noteq> None"
    by blast
  have ex: "\<forall>k. k \<notin> {''_id'', ''childId'', modelName cm} \<longrightarrow> map_of e k = map_of x0 k"
    using ek p1x by simp
  have fx: "\<forall>k. k \<notin> {''_id'', ''childId'', modelName cm, modelName om}
              \<longrightarrow> map_of f k = map_of x0 k"
    using fk p3x by simp
  show ?thesis
    unfolding x0_def [symmetric] so sc
    by (rule exI [of _ e], rule exI [of _ f]) (use e ex ei en f fx fi fn fr in simp)
qed

text \<open>
  Two resolved calls of \<open>addOne\<close> with the same extra fields, the save of the child not
  rejected: after either call there is one entry for the pair on either side, it carries the
  extra fields, and its \<open>_id\<close> after the second call is the one after the first.
\<close>

lemma addOne_twice_saved:
  assumes first: "addOne om oi cm cid an extra d = (Resolved VTrue, d1)"
    and second: "addOne om oi cm cid an extra d1 = (Resolved VTrue, d2)"
    and a: "map_of (associations om) an = Some a" "atype a = ''MANY_MANY''"
    and rc: "childAssociationName (\<lambda>a. amodel a = modelName om \<and> atype a = ''MANY_MANY'')
               (associations cm) = Inr rc"
    and nf: "(modelName cm, cid) \<notin> set (failing d)"
    and rj: "rejections d = []"
    and ne: "(modelName om, oi) \<noteq> (modelName cm, cid)"
    and u1: "length (entriesFor (modelName cm) cid (storedArray d om oi an)) \<le> 1"
    and u2: "length (entriesFor (modelName om) oi (storedArray d cm cid rc)) \<le> 1"
  shows "\<exists>e1 e2 f1 f2.
      entriesFor (modelName cm) cid (storedArray d1 om oi an) = [e1]
    \<and> entriesFor (modelName cm) cid (storedArray d2 om oi an) = [e2]
    \<and> map_of e2 ''_id'' = map_of e1 ''_id''
    \<and> (\<forall>k. k \<notin> {''_id'', ''childId'', modelName cm}
           \<longrightarrow> map_of e2 k = map_of (case extra of None \<Rightarrow> [] | Some x \<Rightarrow> x) k)
    \<and> entriesFor (modelName om) oi (storedArray d1 cm cid rc) = [f1]
    \<and> entriesFor (modelName om) oi (storedArray d2 cm cid rc) = [f2]
    \<and> map_of f2 ''_id'' = map_of f1 ''_id''
    \<and> (\<forall>k. k \<notin> {''_id'', ''childId'', modelName cm, modelName om}
           \<longrightarrow> map_of f2 k = map_of (case extra of None \<Rightarrow> [] | Some x \<Rightarrow> x) k)"
proof -
  from addOne_saved [OF first a rc nf rj ne u1 u2] obtain e1 f1 where
    e1: "entriesFor (modelName cm) cid (storedArray d1 om oi an) = [e1]"
    and f1: "entriesFor (modelName om) oi (storedArray d1 cm cid rc) = [f1]"
    and fr: "failing d1 = failing d" "rejections d1 = []"
    by (elim exE conjE) (rule that; assumption)
  from nf fr have nf1: "(modelName cm, cid) \<notin> set (failing d1)" by simp
  have l1: "length (entriesFor (modelName cm) cid (storedArray d1 om oi an)) \<le> 1"
    and l2: "length (entriesFor (modelName om) oi (storedArray d1 cm cid rc)) \<le> 1"
    using e1 f1 by simp_all
  from addOne_saved [OF second a rc nf1 fr(2) ne l1 l2] obtain e2 f2 where
    e2: "entriesFor (modelName cm) cid (storedArray d2 om oi an) = [e2]"
    and ex: "\<forall>k. k \<notin> {''_id'', ''childId'', modelName cm}
           \<longrightarrow> map_of e2 k = map_of (case extra of None \<Rightarrow> [] | Some x \<Rightarrow> x) k"
    and ei: "\<forall>e0. entriesFor (modelName cm) cid (storedArray d1 om oi an) = [e0]
           \<longrightarrow> map_of e2 ''_id'' = map_of e0 ''_id''"
    and f2: "entriesFor (modelName om) oi (storedArray d2 cm cid rc) = [f2]"
    and fx: "\<forall>k. k \<notin> {''_id'', ''childId'', modelName cm, modelName om}
           \<longrightarrow> map_of f2 k = map_of (case extra of None \<Rightarrow> [] | Some x \<Rightarrow> x) k"
    and fi: "\<forall>f0. entriesFor (modelName om) oi (storedArray d1 cm cid rc) = [f0]
           \<longrightarrow> map_of f2 ''_id'' = map_of f0 ''_id''"
    by (elim exE conjE) (rule that; assumption)
  from ei e1 have "map_of e2 ''_id'' = map_of e1 ''_id''" by simp
  moreover from fi f1 have "map_of f2 ''_id'' = map_of f1 ''_id''" by simp
  ultimately show ?thesis
    by (intro exI [of _ e1] exI [of _ e2] exI [of _ f1] exI [of _ f2])
       (use e1 e2 ex f1 f2 fx in simp)
qed

subsection \<open>The chain of addMany\<close>

lemma childIdsOf_Ids: "childIdsOf (Ids xs) = map Some xs"
  by (simp add: childIdsOf_def)

lemma childIdsOf_Records: "childIdsOf (Records rs) = map (\<lambda>object. map_of object ''childId'') rs"
  by (simp add: childIdsOf_def)

lemma storedArray_arrayOf: "findOne d m i = Some x \<Longrightarrow> storedArray d m i name = arrayOf x name"
  by (simp add: storedArray_def arrayOf_def)

lemma setAssociation_step:
  assumes sa: "setAssociation om ob cm cid an pl d = (Resolved u, ob', pl', d')"
    and a: "map_of (associations om) an = Some a" "atype a = ''MANY_MANY''"
    and ne: "(modelName om, oid ob) \<noteq> (modelName cm, cid)"
  shows "oid ob' = oid ob \<and> findOne d' om (oid ob) = Some ob'
       \<and> refs (modelName cm) (arrayOf ob' an) =
           (if Some cid \<in> set (refs (modelName cm) (arrayOf ob an))
            then refs (modelName cm) (arrayOf ob an)
            else refs (modelName cm) (arrayOf ob an) @ [Some cid])"
proof -
  from setAssociation_resolved [OF sa a] obtain co co' n2 d1 where
    co: "findOne d cm cid = Some co"
    and l: "linkManyMany om ob cm co cid an pl (nextId d) = Inr (ob', co', pl', n2)"
    and s1: "save om ob' (d\<lparr>nextId := n2\<rparr>) = (Inr (), d1)"
    and d': "d' = snd (save cm co' d1)"
    by blast
  from linkManyMany_Inr [OF l] obtain p0 ex oa p2 oa' n1 name ca' where
    oa: "map_of (arrays ob) an = Some oa"
    and lo: "linkOwner (AList.update (modelName cm) (oid co) p0) ex (modelName cm) cid oa (nextId d)
               = Inr (p2, oa', n1)"
    and ob': "ob' = ob\<lparr>arrays := AList.update an oa' (arrays ob)\<rparr>"
    and co': "co' = co\<lparr>arrays := AList.update name ca' (arrays co)\<rparr>"
    by blast
  have oid_co: "oid co = cid" using co by (rule findOne_oid)
  have oid_ob': "oid ob' = oid ob" by (simp add: ob')
  have "findOne d1 om (oid ob) = Some ob'"
    using save_Inr [OF s1, of om "oid ob"] oid_ob' by simp
  moreover have "findOne d' om (oid ob) = findOne d1 om (oid ob)"
    using ne oid_co co' by (intro save_other [of cm co' d1 "fst (save cm co' d1)"])
      (simp_all add: d')
  ultimately have st: "findOne d' om (oid ob) = Some ob'" by simp
  have "map_of (AList.update (modelName cm) (oid co) p0) (modelName cm) = Some cid"
    by (simp add: update_conv' oid_co)
  from linkOwner_refs [OF lo this]
  have "refs (modelName cm) oa' =
           (if Some cid \<in> set (refs (modelName cm) oa) then refs (modelName cm) oa
            else refs (modelName cm) oa @ [Some cid])" .
  moreover have "arrayOf ob an = oa" by (simp add: arrayOf_def oa)
  moreover have "arrayOf ob' an = oa'" by (simp add: arrayOf_def ob' update_conv')
  ultimately show ?thesis using oid_ob' st by simp
qed

lemma linkChain_resolved:
  assumes "linkChain om cm an cs ob pl d = (Resolved u, ob', pl', d')"
    and a: "map_of (associations om) an = Some a" "atype a = ''MANY_MANY''"
    and st: "findOne d om (oid ob) = Some ob"
    and ne: "modelName om \<noteq> modelName cm \<or> Some (oid ob) \<notin> set cs"
    and dist: "distinct cs"
  shows "findOne d' om (oid ob) = Some ob'
       \<and> refs (modelName cm) (arrayOf ob' an) =
           refs (modelName cm) (arrayOf ob an)
           @ filter (\<lambda>c. c \<notin> set (refs (modelName cm) (arrayOf ob an))) cs"
  using assms(1) st ne dist
proof (induction cs arbitrary: ob pl d)
  case Nil
  then show ?case by simp
next
  case (Cons c cs)
  show ?case
  proof (cases c)
    case None
    with Cons.prems(1) show ?thesis by simp
  next
    case (Some cid)
    obtain r o1 p1 d1 where sa: "setAssociation om ob cm cid an pl d = (r, o1, p1, d1)"
      by (cases "setAssociation om ob cm cid an pl d")
    with Cons.prems(1) Some obtain v where r: "r = Resolved v"
      by (cases r) auto
    with sa Cons.prems(1) Some
    have ch: "linkChain om cm an cs o1 p1 d1 = (Resolved u, ob', pl', d')" by simp
    from Cons.prems(3) Some have ne1: "(modelName om, oid ob) \<noteq> (modelName cm, cid)" by auto
    from setAssociation_step [OF sa [unfolded r] a ne1]
    have o1: "oid o1 = oid ob" and st1: "findOne d1 om (oid ob) = Some o1"
      and rf: "refs (modelName cm) (arrayOf o1 an) =
           (if Some cid \<in> set (refs (modelName cm) (arrayOf ob an))
            then refs (modelName cm) (arrayOf ob an)
            else refs (modelName cm) (arrayOf ob an) @ [Some cid])"
      by auto
    from Cons.prems(3,4) have ne2: "modelName om \<noteq> modelName cm \<or> Some (oid o1) \<notin> set cs"
      and dist2: "distinct cs" and notin: "Some cid \<notin> set cs"
      using Some o1 by auto
    from Cons.IH [OF ch _ ne2 dist2] st1 o1
    have ih: "findOne d' om (oid ob) = Some ob'"
      "refs (modelName cm) (arrayOf ob' an) =
           refs (modelName cm) (arrayOf o1 an)
           @ filter (\<lambda>c. c \<notin> set (refs (modelName cm) (arrayOf o1 an))) cs"
      by auto
    have "filter (\<lambda>c. c \<noteq> Some cid \<and> c \<notin> set (refs (modelName cm) (arrayOf ob an))) cs
          = filter (\<lambda>c. c \<notin> set (refs (modelName cm) (arrayOf ob an))) cs"
      using notin by (intro filter_cong) auto
    with ih rf Some show ?thesis by auto
  qed
qed

lemma linkChain_rejected:
  assumes "linkChain om cm an pre ob pl d = (Resolved u, o1, p1, d1)"
    and "setAssociation om o1 cm c an p1 d1 = (Rejected r, o2, p2, d2)"
  shows "linkChain om cm an (pre @ Some c # post) ob pl d = (Pending, o2, p2, d2)"
  using assms
proof (induction pre arbitrary: ob pl d)
  case Nil
  then show ?case by simp
next
  case (Cons x pre)
  then show ?case
    by (cases x) (auto split: prod.splits promise.splits)
qed

lemma Q_all_Rejected: "Q_all [a, b] = Rejected r \<Longrightarrow> a = Inl r"
  by (cases a) auto

lemma settled_Rejected: "settled a = Rejected r \<Longrightarrow> a = Inl r"
  by (cases a) auto

lemma setAssociation_rejected_store:
  assumes sa: "setAssociation om ob cm c an pl d = (Rejected r, o2, p2, d2)"
    and ne: "(modelName m, i) \<noteq> (modelName cm, c)"
  shows "findOne d2 m i = findOne d m i"
proof (cases "findOne d cm c")
  case None
  with sa show ?thesis by (simp add: setAssociation_def)
next
  case (Some co)
  then have oid_co: "oid co = c" by (rule findOne_oid)
  show ?thesis
  proof (cases "map_of (associations om) an")
    case None
    with sa Some show ?thesis by (simp add: setAssociation_def)
  next
    case a: (Some a)
    consider (one) "atype a = ''ONE_MANY''" | (many) "atype a = ''MANY_MANY''"
      | (other) "atype a \<noteq> ''ONE_MANY''" "atype a \<noteq> ''MANY_MANY''" by blast
    then show ?thesis
    proof cases
      case one
      define x where "x = (case foreignField a of None \<Rightarrow> co
        | Some f \<Rightarrow> co\<lparr>props := AList.update f (oid ob) (props co)\<rparr>)"
      obtain r1 d1 where s1: "save cm x d = (r1, d1)" by (cases "save cm x d")
      from sa Some a one s1 have "settled r1 = Rejected r" and "d2 = d1"
        by (auto simp: setAssociation_def x_def)
      then have "r1 = Inl r" and "d2 = d1" by (auto dest: settled_Rejected)
      with s1 show ?thesis by (auto dest: save_Inl)
    next
      case many
      show ?thesis
      proof (cases "linkManyMany om ob cm co c an pl (nextId d)")
        case (Inl e)
        with sa Some a many show ?thesis by (simp add: setAssociation_def)
      next
        case (Inr res)
        obtain ob' co' pl' n where res: "res = (ob', co', pl', n)" by (cases res) auto
        obtain r1 d1 where s1: "save om ob' (d\<lparr>nextId := n\<rparr>) = (r1, d1)"
          by (cases "save om ob' (d\<lparr>nextId := n\<rparr>)")
        obtain r2 d2' where s2: "save cm co' d1 = (r2, d2')"
          by (cases "save cm co' d1")
        from sa Some a many Inr res s1 s2
        have q: "Q_all [r1, r2] = Rejected r" and e: "d2 = d2'"
          by (auto simp: setAssociation_def)
        from q have "r1 = Inl r" by (rule Q_all_Rejected)
        with s1 have d1: "findOne d1 m i = findOne d m i" by (auto dest: save_Inl)
        from linkManyMany_Inr [OF Inr [unfolded res]] have "oid co' = oid co" by auto
        with ne oid_co have "findOne d2' m i = findOne d1 m i"
          by (intro save_other [OF s2]) simp
        with e d1 show ?thesis by simp
      qed
    next
      case other
      with sa Some a show ?thesis by (simp add: setAssociation_def)
    qed
  qed
qed

text \<open>
  When \<open>addMany\<close> resolves for distinct child ids on a MANY_MANY association, the stored
  owner array refers to what it referred to before, followed by the child ids of the payload
  that were not linked before, in payload order.
\<close>

lemma addMany_resolved:
  assumes owner: "findOne d ownerModel ownerId = Some ownerObject"
    and a: "map_of (associations ownerModel) associationName = Some a" "atype a = ''MANY_MANY''"
    and res: "addMany ownerModel ownerId childModel associationName payload d = (Resolved VTrue, d')"
    and dist: "distinct (childIdsOf payload)"
    and ne: "modelName ownerModel \<noteq> modelName childModel \<or> Some ownerId \<notin> set (childIdsOf payload)"
  shows "refs (modelName childModel) (storedArray d' ownerModel ownerId associationName)
           = refs (modelName childModel) (storedArray d ownerModel ownerId associationName)
             @ filter (\<lambda>c. c \<notin> set (refs (modelName childModel)
                            (storedArray d ownerModel ownerId associationName)))
                 (childIdsOf payload)"
proof -
  have oid_o: "oid ownerObject = ownerId" using owner by (rule findOne_oid)
  from res owner obtain u ob' pl' where
    ch: "linkChain ownerModel childModel associationName (childIdsOf payload) ownerObject payload d
           = (Resolved u, ob', pl', d')"
    by (auto simp: addMany_def split: prod.splits promise.splits)
  from linkChain_resolved [OF ch a _ _ dist] owner ne oid_o
  have "findOne d' ownerModel ownerId = Some ob'"
    and "refs (modelName childModel) (arrayOf ob' associationName) =
           refs (modelName childModel) (arrayOf ownerObject associationName)
           @ filter (\<lambda>c. c \<notin> set (refs (modelName childModel) (arrayOf ownerObject associationName)))
               (childIdsOf payload)"
    by auto
  then show ?thesis using owner by (simp add: storedArray_arrayOf)
qed

text \<open>
  When the children \<open>pre\<close> have been linked and \<open>setAssociation\<close> rejects for the next
  child \<open>c\<close>, \<open>addMany\<close> never settles, and every document but that of \<open>c\<close> is as the
  links of \<open>pre\<close> left it.
\<close>

lemma addMany_rejected_link:
  assumes owner: "findOne d ownerModel ownerId = Some ownerObject"
    and ids: "childIdsOf payload = pre @ Some c # post"
    and pre: "linkChain ownerModel childModel associationName pre ownerObject payload d
                = (Resolved (), o1, p1, d1)"
    and rej: "setAssociation ownerModel o1 childModel c associationName p1 d1
                = (Rejected r, o2, p2, d2)"
  shows "addMany ownerModel ownerId childModel associationName payload d = (Pending, d2)
       \<and> (\<forall>m i. (modelName m, i) \<noteq> (modelName childModel, c)
              \<longrightarrow> findOne d2 m i = findOne d1 m i)"
proof
  from linkChain_rejected [OF pre rej, of post] ids owner
  show "addMany ownerModel ownerId childModel associationName payload d = (Pending, d2)"
    by (simp add: addMany_def)
  show "\<forall>m i. (modelName m, i) \<noteq> (modelName childModel, c)
          \<longrightarrow> findOne d2 m i = findOne d1 m i"
    using setAssociation_rejected_store [OF rej] by blast
qed

subsection \<open>The lemmas at the models of test scenario 3\<close>

lemma addOne_twice_saved_example:
  "\<exists>e1 e2 f1 f2.
      entriesFor (modelName permissionModel) ''p1''
        (storedArray (snd (addOne roleModel ''r1'' permissionModel ''p1'' ''permissions''
           (Some [(''since'', ''2020'')]) (exampleStore []))) roleModel ''r1'' ''permissions'') = [e1]
    \<and> entriesFor (modelName permissionModel) ''p1''
        (storedArray (snd (addOne roleModel ''r1'' permissionModel ''p1'' ''permissions''
           (Some [(''since'', ''2020'')])
           (snd (addOne roleModel ''r1'' permissionModel ''p1'' ''permissions''
              (Some [(''since'', ''2020'')]) (exampleStore []))))) roleModel ''r1'' ''permissions'') = [e2]
    \<and> map_of e2 ''_id'' = map_of e1 ''_id''
    \<and> map_of e2 ''since'' = Some ''2020''
    \<and> entriesFor (modelName roleModel) ''r1''
        (storedArray (snd (addOne roleModel ''r1'' permissionModel ''p1'' ''permissions''
           (Some [(''since'', ''2020'')]) (exampleStore []))) permissionModel ''p1'' ''roles'') = [f1]
    \<and> entriesFor (modelName roleModel) ''r1''
        (storedArray (snd (addOne roleModel ''r1'' permissionModel ''p1'' ''permissions''
           (Some [(''since'', ''2020'')])
           (snd (addOne roleModel ''r1'' permissionModel ''p1'' ''permissions''
              (Some [(''since'', ''2020'')]) (exampleStore []))))) permissionModel ''p1'' ''roles'') = [f2]
    \<and> map_of f2 ''_id'' = map_of f1 ''_id''
    \<and> map_of f2 ''since'' = Some ''2020''"
proof -
  let ?d = "exampleStore []"
  let ?extra = "Some [(''since'', ''2020'')]"
  let ?d1 = "snd (addOne roleModel ''r1'' permissionModel ''p1'' ''permissions'' ?extra ?d)"
  let ?d2 = "snd (addOne roleModel ''r1'' permissionModel ''p1'' ''permissions'' ?extra ?d1)"
  let ?a = "\<lparr>atype = ''MANY_MANY'', amodel = ''permission'', foreignField = None,
             include_as = Some ''permissions''\<rparr>"
  have first: "addOne roleModel ''r1'' permissionModel ''p1'' ''permissions'' ?extra ?d
                 = (Resolved VTrue, ?d1)"
    by code_simp
  have second: "addOne roleModel ''r1'' permissionModel ''p1'' ''permissions'' ?extra ?d1
                  = (Resolved VTrue, ?d2)"
    by code_simp
  have a: "map_of (associations roleModel) ''permissions'' = Some ?a" "atype ?a = ''MANY_MANY''"
    by code_simp+
  have rc: "childAssociationName (\<lambda>a. amodel a = modelName roleModel \<and> atype a = ''MANY_MANY'')
              (associations permissionModel) = Inr ''roles''"
    by code_simp
  have nf: "(modelName permissionModel, ''p1'') \<notin> set (failing ?d)"
    by code_simp
  have rj: "rejections ?d = []"
    by code_simp
  have ne: "(modelName roleModel, ''r1'') \<noteq> (modelName permissionModel, ''p1'')"
    by code_simp
  have u1: "length (entriesFor (modelName permissionModel) ''p1''
              (storedArray ?d roleModel ''r1'' ''permissions'')) \<le> 1"
    by code_simp
  have u2: "length (entriesFor (modelName roleModel) ''r1''
              (storedArray ?d permissionModel ''p1'' ''roles'')) \<le> 1"
    by code_simp
  from addOne_twice_saved [OF first second a rc nf rj ne u1 u2] obtain e1 e2 f1 f2 where
    e: "entriesFor (modelName permissionModel) ''p1'' (storedArray ?d1 roleModel ''r1'' ''permissions'') = [e1]"
      "entriesFor (modelName permissionModel) ''p1'' (storedArray ?d2 roleModel ''r1'' ''permissions'') = [e2]"
      "map_of e2 ''_id'' = map_of e1 ''_id''"
    and ex: "\<forall>k. k \<notin> {''_id'', ''childId'', modelName permissionModel}
           \<longrightarrow> map_of e2 k = map_of (case ?extra of None \<Rightarrow> [] | Some x \<Rightarrow> x) k"
    and f: "entriesFor (modelName roleModel) ''r1'' (storedArray ?d1 permissionModel ''p1'' ''roles'') = [f1]"
      "entriesFor (modelName roleModel) ''r1'' (storedArray ?d2 permissionModel ''p1'' ''roles'') = [f2]"
      "map_of f2 ''_id'' = map_of f1 ''_id''"
    and fx: "\<forall>k. k \<notin> {''_id'', ''childId'', modelName permissionModel, modelName roleModel}
           \<longrightarrow> map_of f2 k = map_of (case ?extra of None \<Rightarrow> [] | Some x \<Rightarrow> x) k"
    by (elim exE conjE) (rule that; assumption)
  have k: "''since'' \<notin> {''_id'', ''childId'', modelName permissionModel}"
    "''since'' \<notin> {''_id'', ''childId'', modelName permissionModel, modelName roleModel}"
    by (simp_all add: permissionModel_def roleModel_def)
  from ex k(1) have es: "map_of e2 ''since'' = Some ''2020''" by simp
  from fx k(2) have fs: "map_of f2 ''since'' = Some ''2020''" by simp
  show ?thesis
    by (intro exI [of _ e1] exI [of _ e2] exI [of _ f1] exI [of _ f2] conjI e f es fs)
qed

lemma addMany_resolved_example:
  "refs (modelName permissionModel)
     (storedArray (snd (addMany roleModel ''r1'' permissionModel ''permissions''
                          (Records [[(''childId'', ''p1''), (''since'', ''2020'')],
                                    [(''childId'', ''p2''), (''since'', ''2021'')]])
                          (exampleStore [])))
        roleModel ''r1'' ''permissions'')
     = [Some ''p1'', Some ''p2'']"
proof -
  let ?d = "exampleStore []"
  let ?ob = "\<lparr>oid = ''r1'', props = [], arrays = [(''permissions'', [])]\<rparr>"
  let ?a = "\<lparr>atype = ''MANY_MANY'', amodel = ''permission'', foreignField = None,
             include_as = Some ''permissions''\<rparr>"
  have owner: "findOne ?d roleModel ''r1'' = Some ?ob" by code_simp
  have a: "map_of (associations roleModel) ''permissions'' = Some ?a" "atype ?a = ''MANY_MANY''"
    by code_simp+
  let ?two = "Records [[(''childId'', ''p1''), (''since'', ''2020'')],
                       [(''childId'', ''p2''), (''since'', ''2021'')]]"
  let ?d' = "snd (addMany roleModel ''r1'' permissionModel ''permissions'' ?two ?d)"
  have r: "addMany roleModel ''r1'' permissionModel ''permissions'' ?two ?d = (Resolved VTrue, ?d')"
    by code_simp
  have dist: "distinct (childIdsOf ?two)" by code_simp
  have ne: "modelName roleModel \<noteq> modelName permissionModel \<or> Some ''r1'' \<notin> set (childIdsOf ?two)"
    by code_simp
  note addMany_resolved [OF owner a r dist ne]
  also have "refs (modelName permissionModel) (storedArray ?d roleModel ''r1'' ''permissions'')
            @ filter (\<lambda>c. c \<notin> set (refs (modelName permissionModel)
                            (storedArray ?d roleModel ''r1'' ''permissions'')))
                (childIdsOf ?two) = [Some ''p1'', Some ''p2'']"
    by (simp add: refs_def storedArray_def findOne_def exampleStore_def roleModel_def
        permissionModel_def childIdsOf_def)
  finally show ?thesis .
qed

lemma addMany_rejected_link_example:
  "fst (addMany roleModel ''r1'' permissionModel ''permissions''
            (Ids [''p1'', ''p9'', ''p2'']) (exampleStore [])) = Pending
   \<and> findOne (snd (addMany roleModel ''r1'' permissionModel ''permissions''
            (Ids [''p1'', ''p9'', ''p2'']) (exampleStore []))) permissionModel ''p2''
      = findOne (exampleStore []) permissionModel ''p2''"
proof -
  let ?d = "exampleStore []"
  let ?ob = "\<lparr>oid = ''r1'', props = [], arrays = [(''permissions'', [])]\<rparr>"
  have owner: "findOne ?d roleModel ''r1'' = Some ?ob" by code_simp
  let ?three = "Ids [''p1'', ''p9'', ''p2'']"
  let ?chain = "linkChain roleModel permissionModel ''permissions'' [Some ''p1''] ?ob ?three ?d"
  let ?o1 = "fst (snd ?chain)"
  let ?p1 = "fst (snd (snd ?chain))"
  let ?d1 = "snd (snd (snd ?chain))"
  let ?step = "setAssociation roleModel ?o1 permissionModel ''p9'' ''permissions'' ?p1 ?d1"
  have ids: "childIdsOf ?three = [Some ''p1''] @ Some ''p9'' # [Some ''p2'']" by code_simp
  have pre: "?chain = (Resolved (), ?o1, ?p1, ?d1)" by code_simp
  have rej: "?step = (Rejected (Message ''Child object not found.''), fst (snd ?step),
               fst (snd (snd ?step)), snd (snd (snd ?step)))" by code_simp
  note addMany_rejected_link [OF owner ids pre rej]
  then have pend: "addMany roleModel ''r1'' permissionModel ''permissions'' ?three ?d
                = (Pending, snd (snd (snd ?step)))"
    and same: "\<forall>m i. (modelName m, i) \<noteq> (modelName permissionModel, ''p9'')
                 \<longrightarrow> findOne (snd (snd (snd ?step))) m i = findOne ?d1 m i"
    by (rule conjunct1, rule conjunct2)
  have "(modelName permissionModel, ''p2'') \<noteq> (modelName permissionModel, ''p9'')" by simp
  note same [rule_format, of permissionModel "''p2''", OF this]
  also have "findOne ?d1 permissionModel ''p2'' = findOne ?d permissionModel ''p2''" by code_simp
  finally have unchanged: "findOne (snd (snd (snd ?step))) permissionModel ''p2''
                    = findOne ?d permissionModel ''p2''" .
  show ?thesis
    by (simp only: pend fst_conv snd_conv unchanged)
qed

text \<open>
  A later save of the owner can be rejected although an earlier one was not: with the third
  save of the run rejected (the owner's, in the link of \<open>p2\<close>), \<open>addMany\<close> never settles.
\<close>

lemma addMany_later_save_rejected:
  "fst (addMany roleModel ''r1'' permissionModel ''permissions'' (Ids [''p1'', ''p2''])
          ((exampleStore [])\<lparr>rejections := [False, False, True]\<rparr>)) = Pending"
  by code_simp

subsection \<open>A rejected save\<close>

text \<open>
  Whatever the removal does, \<open>removeOne\<close> resolves as soon as the owner exists; and
  \<open>addOne\<close> does report a rejected save of the owner.
\<close>

lemma removeOne_resolves:
  "findOne d ownerModel ownerId = Some ownerObject \<Longrightarrow>
     fst (removeOne ownerModel ownerId childModel childId associationName d) = Resolved VUndefined"
  by (simp add: removeOne_def split: prod.splits)

lemma addOne_owner_save_rejected:
  "fst (addOne roleModel ''r1'' permissionModel ''p1'' ''permissions'' None
          (exampleStore [(''role'', ''r1'')]))
     = Rejected (Typed GATEWAY_TIMEOUT ''There was a database error while setting the association.'')"
  by code_simp

text \<open>
  Claim C9. When the save of the child is rejected, \<open>addOne\<close> should report a failure; it
  resolves with \<open>true\<close>, because \<open>Q.all\<close> is called with the two promises as two
  arguments and only ever looks at the first one, the owner's. \<open>removeOne\<close> should report a
  failure when either save is rejected; it resolves in both cases, because \<open>_removeOne\<close>
  does not return the promise of \<open>_removeAssociation\<close> (\<open>_addOne\<close> does return the one of
  \<open>_setAssociation\<close>).
\<close>

theorem C9_rejected_save_reported_as_success:
  "fst (addOne roleModel ''r1'' permissionModel ''p1'' ''permissions'' None
          (exampleStore [(''permission'', ''p1'')])) = Resolved VTrue
   \<and> fst (removeOne roleModel ''r1'' permissionModel ''p1'' ''permissions''
          (linkedStore [(''permission'', ''p1'')])) = Resolved VUndefined
   \<and> fst (removeOne roleModel ''r1'' permissionModel ''p1'' ''permissions''
          (linkedStore [(''role'', ''r1'')])) = Resolved VUndefined"
  by code_simp

text \<open>
  Claim C2. After a successful \<open>addOne\<close> both sides should hold a linking entry, after a
  successful \<open>removeOne\<close> neither. With the save of the child rejected, \<open>addOne\<close> resolves
  with \<open>true\<close> and leaves the entry on the role only; \<open>removeOne\<close> resolves and leaves the
  entry on the permission only.
\<close>

theorem C2_one_sided_after_success:
  "(case addOne roleModel ''r1'' permissionModel ''p1'' ''permissions'' None
          (exampleStore [(''permission'', ''p1'')]) of
      (reported, d) \<Rightarrow>
        reported = Resolved VTrue
        \<and> storedArray d roleModel ''r1'' ''permissions''
            = [[(''_id'', ''oid''), (''permission'', ''p1'')]]
        \<and> storedArray d permissionModel ''p1'' ''roles'' = [])
   \<and> (case removeOne roleModel ''r1'' permissionModel ''p1'' ''permissions''
          (linkedStore [(''permission'', ''p1'')]) of
      (reported, d) \<Rightarrow>
        reported = Resolved VUndefined
        \<and> storedArray d roleModel ''r1'' ''permissions'' = []
        \<and> storedArray d permissionModel ''p1'' ''roles''
            = [[(''_id'', ''oidi''), (''role'', ''r1'')]])"
  by code_simp

text \<open>
  Claim C7. Two calls of \<open>addOne\<close> for the same owner, child and extra fields should leave
  exactly one entry for the pair on the owner's array and exactly one on the child's
  reciprocal array, with the same \<open>_id\<close> after the second call as after the first. With the
  save of the child rejected, both calls resolve with \<open>true\<close>. The role holds one entry for
  \<open>p1\<close>, with the extra field and, after the second call, the \<open>_id\<close> of the first; the
  permission holds no entry for \<open>r1\<close>, after the first call as after the second.
\<close>

theorem C7_child_entry_missing_after_two_calls:
  "fst (addOne roleModel ''r1'' permissionModel ''p1'' ''permissions''
          (Some [(''since'', ''2020'')]) (exampleStore [(''permission'', ''p1'')]))
     = Resolved VTrue
   \<and> storedArray (snd (addOne roleModel ''r1'' permissionModel ''p1'' ''permissions''
          (Some [(''since'', ''2020'')]) (exampleStore [(''permission'', ''p1'')])))
        roleModel ''r1'' ''permissions''
     = [[(''_id'', ''oid''), (''since'', ''2020''), (''permission'', ''p1'')]]
   \<and> storedArray (snd (addOne roleModel ''r1'' permissionModel ''p1'' ''permissions''
          (Some [(''since'', ''2020'')]) (exampleStore [(''permission'', ''p1'')])))
        permissionModel ''p1'' ''roles''
     = []
   \<and> (case addOne roleModel ''r1'' permissionModel ''p1'' ''permissions''
          (Some [(''since'', ''2020'')])
          (snd (addOne roleModel ''r1'' permissionModel ''p1'' ''permissions''
             (Some [(''since'', ''2020'')]) (exampleStore [(''permission'', ''p1'')]))) of
      (reported, d) \<Rightarrow>
        reported = Resolved VTrue
        \<and> storedArray d roleModel ''r1'' ''permissions''
            = [[(''since'', ''2020''), (''permission'', ''p1''), (''_id'', ''oid'')]]
        \<and> storedArray d permissionModel ''p1'' ''roles'' = [])"
  by code_simp

text \<open>
  Claim C8. When the link of a child fails, \<open>addMany\<close> should stop there and leave the
  later children unlinked. With the save of permission \<open>p1\<close> rejected its link fails: the
  role gets the entry for \<open>p1\<close>, the permission \<open>p1\<close> gets none. \<open>addMany\<close> goes on all
  the same, links \<open>p2\<close> on both sides and resolves with \<open>true\<close>, for a payload of ids as
  for a payload of records with extra fields.
\<close>

theorem C8_later_child_linked_after_failed_link:
  "(case addMany roleModel ''r1'' permissionModel ''permissions'' (Ids [''p1'', ''p2''])
          (exampleStore [(''permission'', ''p1'')]) of
      (reported, d) \<Rightarrow>
        reported = Resolved VTrue
        \<and> storedArray d roleModel ''r1'' ''permissions''
            = [[(''_id'', ''oid''), (''permission'', ''p1'')],
               [(''_id'', ''oidii''), (''permission'', ''p2'')]]
        \<and> storedArray d permissionModel ''p1'' ''roles'' = []
        \<and> storedArray d permissionModel ''p2'' ''roles''
            = [[(''_id'', ''oidiii''), (''role'', ''r1'')]])
   \<and> (case addMany roleModel ''r1'' permissionModel ''permissions''
          (Records [[(''childId'', ''p1''), (''since'', ''2020'')],
                    [(''childId'', ''p2''), (''since'', ''2021'')]])
          (exampleStore [(''permission'', ''p1'')]) of
      (reported, d) \<Rightarrow>
        reported = Resolved VTrue
        \<and> storedArray d roleModel ''r1'' ''permissions''
            = [[(''_id'', ''oid''), (''since'', ''2020''), (''permission'', ''p1'')],
               [(''_id'', ''oidii''), (''since'', ''2021''), (''permission'', ''p2'')]]
        \<and> storedArray d permissionModel ''p1'' ''roles'' = []
        \<and> storedArray d permissionModel ''p2'' ''roles''
            = [[(''_id'', ''oidiii''), (''since'', ''2021''), (''role'', ''r1'')]])"
  by code_simp

end
